theory Spec2Isabelle
  imports Complex_Main
begin

section \<open>JavaScript values used by \<open>App.tsx\<close>\<close>

text \<open>
  Strings are lists of 8-bit characters; a data URL and the binary string returned by
  \<open>atob\<close> consist of such characters only. A value that a \<open>throw\<close> or a rejected promise
  carries is either an \<open>Error\<close> object with its message or some other value; the handlers
  distinguish the two with \<open>err instanceof Error\<close>.
\<close>

datatype thrown = Error string | NonError

text \<open>\<open>err instanceof Error ? err.message : 'An unknown error occurred.'\<close>\<close>

fun errorMessage :: "thrown \<Rightarrow> string" where
  "errorMessage (Error m) = m"
| "errorMessage NonError = ''An unknown error occurred.''"

text \<open>\<open>s.split(',')\<close>: the pieces between the commas, one piece for a string without a comma.\<close>

fun split_comma :: "string \<Rightarrow> string list" where
  "split_comma [] = [[]]"
| "split_comma (c # cs) =
     (if c = CHR '','' then [] # split_comma cs
      else (case split_comma cs of [] \<Rightarrow> [[c]] | p # ps \<Rightarrow> (c # p) # ps))"

text \<open>
  The regular expression \<open>/:(.*?);/\<close>. The dot matches any character but a line terminator.
  \<open>lazyUntilSemicolon\<close> is the part \<open>(.*?);\<close> anchored at the head of its argument: the lazy
  star first tries the semicolon and only then consumes one more character. \<open>mimeMatch\<close>
  searches the leftmost colon from which that succeeds and returns capture group 1.
\<close>

definition isLineTerminator :: "char \<Rightarrow> bool" where
  "isLineTerminator c = (c = CHR 0x0A \<or> c = CHR 0x0D)"

fun lazyUntilSemicolon :: "string \<Rightarrow> string option" where
  "lazyUntilSemicolon [] = None"
| "lazyUntilSemicolon (c # cs) =
     (if c = CHR '';'' then Some []
      else if isLineTerminator c then None
      else map_option ((#) c) (lazyUntilSemicolon cs))"

fun mimeMatch :: "string \<Rightarrow> string option" where
  "mimeMatch [] = None"
| "mimeMatch (c # cs) =
     (if c = CHR '':'' then
        (case lazyUntilSemicolon cs of Some g \<Rightarrow> Some g | None \<Rightarrow> mimeMatch cs)
      else mimeMatch cs)"

text \<open>\<open>String.prototype.trim\<close>: white space and line terminators are removed at both ends.\<close>

definition isWhiteSpace :: "char \<Rightarrow> bool" where
  "isWhiteSpace c = (c \<in> set [CHR 0x09, CHR 0x0A, CHR 0x0B, CHR 0x0C, CHR 0x0D, CHR 0x20, CHR 0xA0])"

definition trim :: "string \<Rightarrow> string" where
  "trim s = rev (dropWhile isWhiteSpace (rev (dropWhile isWhiteSpace s)))"

text \<open>The decimal digits of a number, as a template literal prints \<open>Date.now()\<close>.\<close>

fun showNat :: "nat \<Rightarrow> string" where
  "showNat n =
     (if n < 10 then [''0123456789'' ! n]
      else showNat (n div 10) @ [''0123456789'' ! (n mod 10)])"

declare showNat.simps [simp del]

text \<open>
  A \<open>File\<close> is recorded by the arguments its constructor received:
  \<open>new File([u8arr], filename, {type: mime})\<close>.
\<close>

record File =
  fileBits :: "nat list"
  fileName :: string
  fileType :: string

section \<open>\<open>dataURLtoFile\<close>\<close>

text \<open>
  The browser's \<open>atob\<close> is a parameter: it returns the decoded binary string or throws.
  The \<open>while (n--)\<close> loop stores \<open>bstr.charCodeAt(n)\<close> at every index \<open>n\<close> of the array.
\<close>

definition dataURLtoFile :: "(string \<Rightarrow> thrown + string) \<Rightarrow> string \<Rightarrow> string \<Rightarrow> thrown + File" where
  "dataURLtoFile atob dataurl filename =
     (let arr = split_comma dataurl in
      if length arr < 2 then Inl (Error ''Invalid data URL'')
      else
        (case mimeMatch (arr ! 0) of
           None \<Rightarrow> Inl (Error ''Could not parse MIME type from data URL'')
         | Some mime \<Rightarrow>
             if mime = [] then Inl (Error ''Could not parse MIME type from data URL'')
             else
               (case atob (arr ! 1) of
                  Inl err \<Rightarrow> Inl err
                | Inr bstr \<Rightarrow>
                    Inr \<lparr>fileBits = map of_char bstr, fileName = filename, fileType = mime\<rparr>)))"

section \<open>Numbers, images and selections\<close>

text \<open>
  A JavaScript number is an IEEE 754 double. A finite one is the real number it stands
  for; \<open>NonFinite\<close> stands for \<open>Infinity\<close>, \<open>-Infinity\<close> and \<open>NaN\<close>. The result of an
  arithmetic operation on finite numbers is the exact result rounded to the nearest
  double, a tie going to the even significand, and it is infinite when the rounded value
  reaches \<open>2^1024\<close>.

  \<open>binade n x\<close> searches, in at most \<open>n\<close> steps, the exponent \<open>e\<close> with \<open>2^e \<le> x < 2^(e+1)\<close> of
  a positive \<open>x\<close>. Doubles have 53 significant bits, so between \<open>2^e\<close> and \<open>2^(e+1)\<close> they are
  \<open>2^(e-52)\<close> apart; below \<open>2^(-1022)\<close> (the subnormal range) they stay \<open>2^(-1074)\<close> apart.
\<close>

datatype num = Fin real | NonFinite

fun binade :: "nat \<Rightarrow> real \<Rightarrow> int" where
  "binade n x =
     (if n = 0 then 0
      else if 2 \<le> x then binade (n - 1) (x / 2) + 1
      else if x < 1 then binade (n - 1) (x * 2) - 1
      else 0)"

declare binade.simps [simp del]

definition roundHalfEven :: "real \<Rightarrow> int" where
  "roundHalfEven m =
     (let f = \<lfloor>m\<rfloor>; d = m - of_int f in
      if d < 1 / 2 then f else if 1 / 2 < d then f + 1 else if even f then f else f + 1)"

definition nearestDouble :: "real \<Rightarrow> real" where
  "nearestDouble x =
     (let e = max (binade 2098 x) (- 1022);
          ulp = 2 powi (e - 52)
      in of_int (roundHalfEven (x / ulp)) * ulp)"

definition toDouble :: "real \<Rightarrow> num" where
  "toDouble x =
     (let y = (if x = 0 then 0 else if 0 < x then nearestDouble x else - nearestDouble (- x))
      in if 2 powi 1024 \<le> \<bar>y\<bar> then NonFinite else Fin y)"

text \<open>
  \<open>a / b\<close> on finite numbers; a division by zero gives \<open>Infinity\<close>, \<open>-Infinity\<close> or \<open>NaN\<close>.
\<close>

definition jsDivide :: "real \<Rightarrow> real \<Rightarrow> num" where
  "jsDivide a b = (if b = 0 then NonFinite else toDouble (a / b))"

text \<open>\<open>a - b\<close> on finite numbers.\<close>

definition jsMinus :: "real \<Rightarrow> real \<Rightarrow> num" where
  "jsMinus a b = toDouble (a - b)"

text \<open>
  \<open>a * b\<close>; a product with \<open>Infinity\<close>, \<open>-Infinity\<close> or \<open>NaN\<close> is one of these three.
\<close>

fun jsTimes :: "num \<Rightarrow> num \<Rightarrow> num" where
  "jsTimes (Fin a) (Fin b) = toDouble (a * b)"
| "jsTimes _ _ = NonFinite"

text \<open>
  \<open>Math.round\<close> gives the nearest integer, a half going upwards, with no rounding error of
  its own: \<open>round\<close> on the reals.
\<close>

fun mathRound :: "num \<Rightarrow> num" where
  "mathRound (Fin a) = Fin (of_int (round a))"
| "mathRound NonFinite = NonFinite"

text \<open>
  Two bounds used to compare a computed product with the exact one. \<open>doubleError x\<close> bounds
  the distance between \<open>x = d * (n / c)\<close> and the double the code computes for it, with the
  quotient and the product each rounded once: four units of relative error \<open>2^(-53)\<close> and one
  subnormal step. \<open>halfDistance x\<close> is the distance of \<open>x\<close> from the nearest number halfway
  between two integers, where \<open>Math.round\<close> changes its value.
\<close>

definition doubleError :: "real \<Rightarrow> real" where
  "doubleError x = \<bar>x\<bar> * 2 powi (- 51) + 2 powi (- 1075)"

definition halfDistance :: "real \<Rightarrow> real" where
  "halfDistance x = \<bar>x - (of_int \<lfloor>x\<rfloor> + 1 / 2)\<bar>"

text \<open>\<open>{ x: number, y: number }\<close>\<close>

record point =
  xCoord :: num
  yCoord :: num

text \<open>
  The properties of an \<open>HTMLImageElement\<close> that the handlers read; \<open>rectLeft\<close> and \<open>rectTop\<close>
  are those of \<open>getBoundingClientRect()\<close>. The sizes are integers (\<open>unsigned long\<close> and \<open>long\<close>
  in the DOM); the coordinates, like those of a mouse event and of a crop, are finite
  doubles.
\<close>

record Img =
  naturalWidth :: nat
  naturalHeight :: nat
  imgWidth :: nat
  imgHeight :: nat
  clientWidth :: nat
  clientHeight :: nat
  rectLeft :: real
  rectTop :: real

record MouseEvent =
  clientX :: real
  clientY :: real
  currentTarget :: Img

text \<open>\<open>Crop\<close> and \<open>PixelCrop\<close> of react-image-crop; a \<open>PixelCrop\<close> has the unit \<open>px\<close>.\<close>

datatype CropUnit = UnitPx | UnitPercent

record Crop =
  cropX :: real
  cropY :: real
  cropWidth :: real
  cropHeight :: real
  cropUnit :: CropUnit

type_synonym PixelCrop = Crop

text \<open>
  What \<open>handleApplyCrop\<close> asks of the canvas: its final size, the scale of
  \<open>setTransform\<close>, and the arguments of \<open>drawImage\<close>.
\<close>

record Canvas =
  canvasWidth :: num
  canvasHeight :: num
  transformScale :: real
  sourceImage :: Img
  sourceX :: num
  sourceY :: num
  sourceWidth :: num
  sourceHeight :: num
  destWidth :: real
  destHeight :: real

datatype Tab = TabRetouch | TabAdjust | TabFilters | TabCrop

section \<open>The generation service and the browser\<close>

text \<open>
  The four functions imported from \<open>services/geminiService\<close>, each with the arguments of
  its call; the first argument is the API key.
\<close>

datatype ServiceCall =
    generateEditedImage string File string point
  | generateFilteredImage string File string
  | generateAdjustedImage string File string
  | generateMemory string File string

fun callKey :: "ServiceCall \<Rightarrow> string" where
  "callKey (generateEditedImage k _ _ _) = k"
| "callKey (generateFilteredImage k _ _) = k"
| "callKey (generateAdjustedImage k _ _) = k"
| "callKey (generateMemory k _ _) = k"

text \<open>
  What a handler receives from outside the components while it runs: \<open>atob\<close>, the value
  of the \<open>k\<close>-th call of \<open>Date.now()\<close>, the outcome with which an awaited service call settles
  (a data URL, or the value the promise rejects with), \<open>window.devicePixelRatio\<close>, whether
  \<open>canvas.getContext('2d')\<close> returns a context, \<open>canvas.toDataURL('image/png')\<close>,
  \<open>JSON.stringify\<close> and \<open>JSON.parse\<close> on arrays of strings, and whether
  \<open>localStorage.setItem\<close> throws.
\<close>

record Env =
  atob :: "string \<Rightarrow> thrown + string"
  dateNow :: "nat \<Rightarrow> nat"
  service :: "ServiceCall \<Rightarrow> thrown + string"
  devicePixelRatio :: real
  hasContext2d :: bool
  toDataURL :: "Canvas \<Rightarrow> string"
  jsonStringify :: "string list \<Rightarrow> string"
  jsonParse :: "string \<Rightarrow> thrown + string list"
  setItemThrows :: bool

section \<open>The state of \<open>App\<close>\<close>

text \<open>
  The \<open>action\<close> closures of the four generation handlers. A closure holds the values of
  the render that created it: the face data URL and prompt of \<open>handleCreateMemory\<close>; the
  current image, the prompt (and hotspot) and, through \<open>addImageToHistory\<close>, the history
  and the history index for the other three.
\<close>

datatype Action =
    CreateMemoryAction string string
  | GenerateAction File string point "File list" int
  | FilterAction File string "File list" int
  | AdjustmentAction File string "File list" int

text \<open>
  The \<open>useState\<close> variables of \<open>App\<close> and \<open>imgRef.current\<close>; the two storage areas of the
  browser; the callbacks that \<open>setTimeout\<close> has scheduled (an action with the key it will
  receive); the service calls that are awaited (each with the action that continues when
  it settles); the calls made to the generation service so far. Of \<open>StartScreen\<close>: its
  \<open>selectedFace\<close>, and of its \<open>FaceLibrary\<close> the \<open>faces\<close> and \<open>selectedFace\<close>, the number of the
  mounted instance, and the file readers that have not finished (each with the instance
  and the \<open>faces\<close> its \<open>onload\<close> closure holds).
\<close>

record AppState =
  history :: "File list"
  historyIndex :: int
  prompt :: string
  isLoading :: bool
  error :: "string option"
  editHotspot :: "point option"
  displayHotspot :: "point option"
  activeTab :: Tab
  crop :: "Crop option"
  completedCrop :: "PixelCrop option"
  aspect :: "real option"
  isComparing :: bool
  imgRef :: "Img option"
  apiKey :: "string option"
  isApiKeyModalOpen :: bool
  pendingAction :: "Action option"
  sessionStorage :: "string \<rightharpoonup> string"
  localStorage :: "string \<rightharpoonup> string"
  timers :: "(Action \<times> string) list"
  inFlight :: "(ServiceCall \<times> Action) list"
  serviceCalls :: "ServiceCall list"
  startSelectedFace :: "string option"
  faces :: "string list"
  librarySelectedFace :: "string option"
  libraryInstance :: nat
  readers :: "(nat \<times> string list) list"

text \<open>
  The first render: \<open>useState\<close> initial values; \<open>apiKey\<close> is read from session storage.
\<close>

definition initialState :: "(string \<rightharpoonup> string) \<Rightarrow> (string \<rightharpoonup> string) \<Rightarrow> AppState" where
  "initialState session local =
     \<lparr>history = [], historyIndex = - 1, prompt = [], isLoading = False, error = None,
      editHotspot = None, displayHotspot = None, activeTab = TabRetouch, crop = None,
      completedCrop = None, aspect = None, isComparing = False, imgRef = None,
      apiKey = session ''user-api-key'', isApiKeyModalOpen = False, pendingAction = None,
      sessionStorage = session, localStorage = local, timers = [], inFlight = [],
      serviceCalls = [], startSelectedFace = None, faces = [], librarySelectedFace = None,
      libraryInstance = 0, readers = []\<rparr>"

text \<open>
  \<open>xs.slice(0, e)\<close>: a negative end counts from the end of the array, and the end is
  clamped to the length.
\<close>

definition slice0 :: "'a list \<Rightarrow> int \<Rightarrow> 'a list" where
  "slice0 xs e =
     (let len = int (length xs);
          k = (if e < 0 then max (len + e) 0 else min e len)
      in take (nat k) xs)"

text \<open>\<open>xs[i] ?? null\<close>: an index outside the array reads \<open>undefined\<close>.\<close>

definition elementAt :: "'a list \<Rightarrow> int \<Rightarrow> 'a option" where
  "elementAt xs i = (if 0 \<le> i \<and> i < int (length xs) then Some (xs ! nat i) else None)"

definition currentImage :: "AppState \<Rightarrow> File option" where
  "currentImage s = elementAt (history s) (historyIndex s)"

definition originalImage :: "AppState \<Rightarrow> File option" where
  "originalImage s = elementAt (history s) 0"

definition canUndo :: "AppState \<Rightarrow> bool" where
  "canUndo s = (historyIndex s > 0)"

definition canRedo :: "AppState \<Rightarrow> bool" where
  "canRedo s = (historyIndex s < int (length (history s)) - 1)"

section \<open>The history handlers\<close>

text \<open>
  \<open>addImageToHistory\<close> is a \<open>useCallback\<close> closure over \<open>history\<close> and \<open>historyIndex\<close>; the
  first two arguments are the values it closes over. Called from an event handler of the
  current render they are those of the state.
\<close>

definition addImageToHistory :: "File list \<Rightarrow> int \<Rightarrow> File \<Rightarrow> AppState \<Rightarrow> AppState" where
  "addImageToHistory h i newImageFile s =
     (let newHistory = slice0 h (i + 1) @ [newImageFile] in
      s\<lparr>history := newHistory, historyIndex := int (length newHistory) - 1,
        crop := None, completedCrop := None\<rparr>)"

definition handleImageUpload :: "File \<Rightarrow> AppState \<Rightarrow> AppState" where
  "handleImageUpload file s =
     s\<lparr>error := None, history := [file], historyIndex := 0, editHotspot := None,
       displayHotspot := None, activeTab := TabRetouch, crop := None, completedCrop := None\<rparr>"

definition handleUndo :: "AppState \<Rightarrow> AppState" where
  "handleUndo s =
     (if canUndo s then
        s\<lparr>historyIndex := historyIndex s - 1, editHotspot := None, displayHotspot := None\<rparr>
      else s)"

definition handleRedo :: "AppState \<Rightarrow> AppState" where
  "handleRedo s =
     (if canRedo s then
        s\<lparr>historyIndex := historyIndex s + 1, editHotspot := None, displayHotspot := None\<rparr>
      else s)"

definition handleReset :: "AppState \<Rightarrow> AppState" where
  "handleReset s =
     (if length (history s) > 0 then
        s\<lparr>historyIndex := 0, error := None, editHotspot := None, displayHotspot := None\<rparr>
      else s)"

definition handleUploadNew :: "AppState \<Rightarrow> AppState" where
  "handleUploadNew s =
     s\<lparr>history := [], historyIndex := - 1, error := None, prompt := [],
       editHotspot := None, displayHotspot := None\<rparr>"

text \<open>\<open>handleFileSelect\<close>: \<open>files && files[0]\<close>, for a \<open>FileList\<close> or \<open>null\<close>.\<close>

fun handleFileSelect :: "File list option \<Rightarrow> AppState \<Rightarrow> AppState" where
  "handleFileSelect (Some (file # _)) s = handleImageUpload file s"
| "handleFileSelect _ s = s"

section \<open>The generation actions\<close>

text \<open>
  The \<open>catch\<close> and \<open>finally\<close> blocks of an action: the message is shown behind the
  handler's prefix, and loading ends.
\<close>

definition failWith :: "string \<Rightarrow> thrown \<Rightarrow> AppState \<Rightarrow> AppState" where
  "failWith prefix err s = s\<lparr>error := Some (prefix @ errorMessage err), isLoading := False\<rparr>"

fun errorPrefix :: "Action \<Rightarrow> string" where
  "errorPrefix (CreateMemoryAction _ _) = ''Failed to create memory. ''"
| "errorPrefix (GenerateAction _ _ _ _ _) = ''Failed to generate the image. ''"
| "errorPrefix (FilterAction _ _ _ _) = ''Failed to apply the filter. ''"
| "errorPrefix (AdjustmentAction _ _ _ _) = ''Failed to apply the adjustment. ''"

text \<open>
  \<open>await\<close> of a service call: the call is made and recorded, and the action waits for it
  to settle. Other events happen in the meantime.
\<close>

definition await :: "ServiceCall \<Rightarrow> Action \<Rightarrow> AppState \<Rightarrow> AppState" where
  "await call action s =
     s\<lparr>serviceCalls := serviceCalls s @ [call], inFlight := inFlight s @ [(call, action)]\<rparr>"

text \<open>
  \<open>action(key)\<close> up to its \<open>await\<close>: loading begins, the error is cleared, and the service
  is called. The memory action first converts the face; a throw of that conversion is
  caught at once.
\<close>

fun startAction :: "Env \<Rightarrow> Action \<Rightarrow> string \<Rightarrow> AppState \<Rightarrow> AppState" where
  "startAction env (CreateMemoryAction faceDataUrl p) key s =
     (let s1 = s\<lparr>isLoading := True, error := None\<rparr> in
      case dataURLtoFile (atob env) faceDataUrl (''face-'' @ showNat (dateNow env 0) @ ''.png'') of
        Inl err \<Rightarrow> failWith ''Failed to create memory. '' err s1
      | Inr faceFile \<Rightarrow>
          await (generateMemory key faceFile p) (CreateMemoryAction faceDataUrl p) s1)"
| "startAction env (GenerateAction currentFile p hotspot h i) key s =
     await (generateEditedImage key currentFile p hotspot)
       (GenerateAction currentFile p hotspot h i) (s\<lparr>isLoading := True, error := None\<rparr>)"
| "startAction env (FilterAction currentFile filterPrompt h i) key s =
     await (generateFilteredImage key currentFile filterPrompt)
       (FilterAction currentFile filterPrompt h i) (s\<lparr>isLoading := True, error := None\<rparr>)"
| "startAction env (AdjustmentAction currentFile adjustmentPrompt h i) key s =
     await (generateAdjustedImage key currentFile adjustmentPrompt)
       (AdjustmentAction currentFile adjustmentPrompt h i) (s\<lparr>isLoading := True, error := None\<rparr>)"

text \<open>
  The rest of the \<open>try\<close> block once the service has answered with a data URL, in the
  state of that moment; \<open>h\<close> and \<open>i\<close> are still those the action was created with.
\<close>

fun onResolved :: "Action \<Rightarrow> File \<Rightarrow> AppState \<Rightarrow> AppState" where
  "onResolved (CreateMemoryAction faceDataUrl p) newImageFile s =
     s\<lparr>history := [newImageFile], historyIndex := 0, editHotspot := None,
       displayHotspot := None, activeTab := TabRetouch\<rparr>"
| "onResolved (GenerateAction currentFile p hotspot h i) newImageFile s =
     (addImageToHistory h i newImageFile s)\<lparr>editHotspot := None, displayHotspot := None\<rparr>"
| "onResolved (FilterAction currentFile filterPrompt h i) newImageFile s =
     addImageToHistory h i newImageFile s"
| "onResolved (AdjustmentAction currentFile adjustmentPrompt h i) newImageFile s =
     addImageToHistory h i newImageFile s"

fun fileNamePrefix :: "Action \<Rightarrow> string" where
  "fileNamePrefix (CreateMemoryAction _ _) = ''memory-''"
| "fileNamePrefix (GenerateAction _ _ _ _ _) = ''edited-''"
| "fileNamePrefix (FilterAction _ _ _ _) = ''filtered-''"
| "fileNamePrefix (AdjustmentAction _ _ _ _) = ''adjusted-''"

text \<open>
  The action after its \<open>await\<close>, given how the call settled: a rejection and a throw of
  \<open>dataURLtoFile\<close> reach the \<open>catch\<close> block, and \<open>finally\<close> ends loading.
\<close>

definition continueAction :: "Env \<Rightarrow> Action \<Rightarrow> thrown + string \<Rightarrow> AppState \<Rightarrow> AppState" where
  "continueAction env action outcome s =
     (case outcome of
        Inl err \<Rightarrow> failWith (errorPrefix action) err s
      | Inr imageUrl \<Rightarrow>
          (case dataURLtoFile (atob env) imageUrl
                  (fileNamePrefix action @ showNat (dateNow env 0) @ ''.png'') of
             Inl err \<Rightarrow> failWith (errorPrefix action) err s
           | Inr newImageFile \<Rightarrow> (onResolved action newImageFile s)\<lparr>isLoading := False\<rparr>))"

text \<open>
  The \<open>n\<close>-th awaited call settles, with the outcome the environment gives it, and its
  action continues.
\<close>

definition serviceSettles :: "Env \<Rightarrow> nat \<Rightarrow> AppState \<Rightarrow> AppState" where
  "serviceSettles env n s =
     (if n < length (inFlight s) then
        (case inFlight s ! n of
           (call, action) \<Rightarrow>
             continueAction env action (service env call)
               (s\<lparr>inFlight := take n (inFlight s) @ drop (Suc n) (inFlight s)\<rparr>))
      else s)"

text \<open>
  The end of each generation handler: \<open>if (!apiKey)\<close> the action is kept as pending and
  the key modal opens, else the action runs with the key. \<open>!apiKey\<close> holds for \<open>null\<close> and
  for the empty string. Running the action returns at its \<open>await\<close>.
\<close>

definition noCredential :: "AppState \<Rightarrow> bool" where
  "noCredential s = (case apiKey s of None \<Rightarrow> True | Some key \<Rightarrow> key = [])"

definition deferAction :: "Action \<Rightarrow> AppState \<Rightarrow> AppState" where
  "deferAction action s = s\<lparr>pendingAction := Some action, isApiKeyModalOpen := True\<rparr>"

definition withApiKey :: "Env \<Rightarrow> Action \<Rightarrow> AppState \<Rightarrow> AppState" where
  "withApiKey env action s =
     (case apiKey s of
        None \<Rightarrow> deferAction action s
      | Some key \<Rightarrow> if key = [] then deferAction action s else startAction env action key s)"

definition handleCreateMemory :: "Env \<Rightarrow> string \<Rightarrow> string \<Rightarrow> AppState \<Rightarrow> AppState" where
  "handleCreateMemory env faceDataUrl p s = withApiKey env (CreateMemoryAction faceDataUrl p) s"

definition handleGenerate :: "Env \<Rightarrow> AppState \<Rightarrow> AppState" where
  "handleGenerate env s =
     (case currentImage s of
        None \<Rightarrow> s\<lparr>error := Some ''No image loaded to edit.''\<rparr>
      | Some currentFile \<Rightarrow>
          if trim (prompt s) = [] then
            s\<lparr>error := Some ''Please enter a description for your edit.''\<rparr>
          else
            (case editHotspot s of
               None \<Rightarrow> s\<lparr>error := Some ''Please click on the image to select an area to edit.''\<rparr>
             | Some hotspot \<Rightarrow>
                 withApiKey env
                   (GenerateAction currentFile (prompt s) hotspot (history s) (historyIndex s)) s))"

definition handleApplyFilter :: "Env \<Rightarrow> string \<Rightarrow> AppState \<Rightarrow> AppState" where
  "handleApplyFilter env filterPrompt s =
     (case currentImage s of
        None \<Rightarrow> s\<lparr>error := Some ''No image loaded to apply a filter to.''\<rparr>
      | Some currentFile \<Rightarrow>
          withApiKey env (FilterAction currentFile filterPrompt (history s) (historyIndex s)) s)"

definition handleApplyAdjustment :: "Env \<Rightarrow> string \<Rightarrow> AppState \<Rightarrow> AppState" where
  "handleApplyAdjustment env adjustmentPrompt s =
     (case currentImage s of
        None \<Rightarrow> s\<lparr>error := Some ''No image loaded to apply an adjustment to.''\<rparr>
      | Some currentFile \<Rightarrow>
          withApiKey env (AdjustmentAction currentFile adjustmentPrompt (history s) (historyIndex s)) s)"

section \<open>The key modal\<close>

text \<open>
  \<open>handleApiKeySubmit\<close>: a key that is empty after trimming changes nothing. Otherwise
  the key is kept in the state and in session storage, the modal closes, and a pending
  action is scheduled with \<open>setTimeout\<close> to run with the trimmed key.
\<close>

definition handleApiKeySubmit :: "string \<Rightarrow> AppState \<Rightarrow> AppState" where
  "handleApiKeySubmit newApiKey s =
     (let trimmedKey = trim newApiKey in
      if trimmedKey \<noteq> [] then
        (let s1 = s\<lparr>apiKey := Some trimmedKey,
                     sessionStorage := (sessionStorage s)(''user-api-key'' \<mapsto> trimmedKey),
                     isApiKeyModalOpen := False\<rparr> in
         case pendingAction s of
           None \<Rightarrow> s1
         | Some action \<Rightarrow> s1\<lparr>timers := timers s1 @ [(action, trimmedKey)]\<rparr>)
      else s)"

text \<open>The modal's \<open>onClose\<close>.\<close>

definition handleApiKeyClose :: "AppState \<Rightarrow> AppState" where
  "handleApiKeyClose s = s\<lparr>isApiKeyModalOpen := False, pendingAction := None\<rparr>"

text \<open>
  The earliest scheduled callback fires: \<open>pendingAction(trimmedKey); setPendingAction(null)\<close>.
  The action returns at its \<open>await\<close>, and then the pending action is cleared.
\<close>

definition timerFires :: "Env \<Rightarrow> AppState \<Rightarrow> AppState" where
  "timerFires env s =
     (case timers s of
        [] \<Rightarrow> s
      | (action, key) # rest \<Rightarrow>
          (startAction env action key (s\<lparr>timers := rest\<rparr>))\<lparr>pendingAction := None\<rparr>)"

section \<open>Cropping\<close>

text \<open>
  \<open>handleApplyCrop\<close> has no \<open>try\<close> block: a throw of \<open>dataURLtoFile\<close> leaves the handler
  as an uncaught exception (\<open>Inl\<close>), after no state update. \<open>window.devicePixelRatio || 1\<close>
  is 1 when the ratio is 0. The callback is created anew for every value of
  \<open>addImageToHistory\<close>, so it appends to the history of the state.
\<close>

definition handleApplyCrop :: "Env \<Rightarrow> AppState \<Rightarrow> thrown + AppState" where
  "handleApplyCrop env s =
     (case completedCrop s of
        None \<Rightarrow> Inr (s\<lparr>error := Some ''Please select an area to crop.''\<rparr>)
      | Some c \<Rightarrow>
          (case imgRef s of
             None \<Rightarrow> Inr (s\<lparr>error := Some ''Please select an area to crop.''\<rparr>)
           | Some img \<Rightarrow>
               if \<not> hasContext2d env then Inr (s\<lparr>error := Some ''Could not process the crop.''\<rparr>)
               else
                 (let scaleX = jsDivide (real (naturalWidth img)) (real (imgWidth img));
                      scaleY = jsDivide (real (naturalHeight img)) (real (imgHeight img));
                      pixelRatio = (if devicePixelRatio env = 0 then 1 else devicePixelRatio env);
                      canvas =
                        \<lparr>canvasWidth = jsTimes (Fin (cropWidth c)) (Fin pixelRatio),
                         canvasHeight = jsTimes (Fin (cropHeight c)) (Fin pixelRatio),
                         transformScale = pixelRatio,
                         sourceImage = img,
                         sourceX = jsTimes (Fin (cropX c)) scaleX,
                         sourceY = jsTimes (Fin (cropY c)) scaleY,
                         sourceWidth = jsTimes (Fin (cropWidth c)) scaleX,
                         sourceHeight = jsTimes (Fin (cropHeight c)) scaleY,
                         destWidth = cropWidth c,
                         destHeight = cropHeight c\<rparr>;
                      croppedImageUrl = toDataURL env canvas
                  in case dataURLtoFile (atob env) croppedImageUrl
                            (''cropped-'' @ showNat (dateNow env 0) @ ''.png'') of
                       Inl err \<Rightarrow> Inl err
                     | Inr newImageFile \<Rightarrow>
                         Inr (addImageToHistory (history s) (historyIndex s) newImageFile s))))"

text \<open>
  The \<open>CropPanel\<close> receives \<open>isCropping = !!completedCrop?.width && completedCrop.width > 0\<close>
  and disables its Apply Crop button with \<open>disabled = isLoading || !isCropping\<close>. A click on
  a disabled button calls no handler.
\<close>

definition isCropping :: "AppState \<Rightarrow> bool" where
  "isCropping s =
     (case completedCrop s of None \<Rightarrow> False | Some c \<Rightarrow> cropWidth c \<noteq> 0 \<and> cropWidth c > 0)"

definition applyCropDisabled :: "AppState \<Rightarrow> bool" where
  "applyCropDisabled s = (isLoading s \<or> \<not> isCropping s)"

definition clickApplyCrop :: "Env \<Rightarrow> AppState \<Rightarrow> thrown + AppState" where
  "clickApplyCrop env s = (if applyCropDisabled s then Inr s else handleApplyCrop env s)"

section \<open>The hotspot\<close>

text \<open>
  One axis of \<open>handleImageClick\<close>: \<open>scale = natural / client\<close> and
  \<open>Math.round(offset * scale)\<close>, the quotient and the product each rounded to a double.
\<close>

definition scaleToNatural :: "num \<Rightarrow> nat \<Rightarrow> nat \<Rightarrow> num" where
  "scaleToNatural offset natural client =
     (let scale = jsDivide (real natural) (real client) in mathRound (jsTimes offset scale))"

definition handleImageClick :: "MouseEvent \<Rightarrow> AppState \<Rightarrow> AppState" where
  "handleImageClick e s =
     (if activeTab s \<noteq> TabRetouch then s
      else
        (let img = currentTarget e;
             offsetX = jsMinus (clientX e) (rectLeft img);
             offsetY = jsMinus (clientY e) (rectTop img);
             s1 = s\<lparr>displayHotspot := Some \<lparr>xCoord = offsetX, yCoord = offsetY\<rparr>\<rparr>;
             originalX = scaleToNatural offsetX (naturalWidth img) (clientWidth img);
             originalY = scaleToNatural offsetY (naturalHeight img) (clientHeight img)
         in s1\<lparr>editHotspot := Some \<lparr>xCoord = originalX, yCoord = originalY\<rparr>\<rparr>))"

section \<open>The face library of the start screen\<close>

text \<open>
  \<open>FaceLibrary\<close> mounts: its state starts empty, and its effect reads the stored faces. A
  missing or empty item, and a throw of \<open>JSON.parse\<close>, leave \<open>faces\<close> empty.
\<close>

definition faceLibraryMounts :: "Env \<Rightarrow> AppState \<Rightarrow> AppState" where
  "faceLibraryMounts env s =
     (let s1 = s\<lparr>faces := [], librarySelectedFace := None,
                  libraryInstance := Suc (libraryInstance s)\<rparr> in
      case localStorage s ''dad-memory-faces'' of
        None \<Rightarrow> s1
      | Some storedFaces \<Rightarrow>
          if storedFaces = [] then s1
          else (case jsonParse env storedFaces of
                  Inl err \<Rightarrow> s1
                | Inr parsed \<Rightarrow> s1\<lparr>faces := parsed\<rparr>))"

text \<open>\<open>saveFacesToStorage\<close>: a throw of \<open>setItem\<close> is caught and logged.\<close>

definition saveFacesToStorage :: "Env \<Rightarrow> string list \<Rightarrow> AppState \<Rightarrow> AppState" where
  "saveFacesToStorage env updatedFaces s =
     (if setItemThrows env then s
      else s\<lparr>localStorage := (localStorage s)(''dad-memory-faces'' \<mapsto> jsonStringify env updatedFaces)\<rparr>)"

text \<open>
  \<open>handleFileAdd\<close> starts a reader for the first file; its \<open>onload\<close> closure holds the
  \<open>faces\<close> of this render.
\<close>

fun handleFileAdd :: "File list option \<Rightarrow> AppState \<Rightarrow> AppState" where
  "handleFileAdd (Some (file # _)) s = s\<lparr>readers := readers s @ [(libraryInstance s, faces s)]\<rparr>"
| "handleFileAdd _ s = s"

text \<open>
  The \<open>n\<close>-th reader finishes with the data URL \<open>newFace\<close>. With fewer than five faces in
  the closure the new list is set (on the instance that started the reader, if it is still
  mounted) and saved; otherwise an alert is shown.
\<close>

definition readerLoads :: "Env \<Rightarrow> nat \<Rightarrow> string \<Rightarrow> AppState \<Rightarrow> AppState" where
  "readerLoads env n newFace s =
     (if n < length (readers s) then
        (case readers s ! n of
           (inst, closureFaces) \<Rightarrow>
             (let s1 = s\<lparr>readers := take n (readers s) @ drop (Suc n) (readers s)\<rparr> in
              if length closureFaces < 5 then
                (let updatedFaces = closureFaces @ [newFace];
                     s2 = (if inst = libraryInstance s1 then s1\<lparr>faces := updatedFaces\<rparr>
                           else s1)
                 in saveFacesToStorage env updatedFaces s2)
              else s1))
      else s)"

text \<open>\<open>handleSelectFace\<close>; \<open>onFaceSelect\<close> is the start screen's \<open>setSelectedFace\<close>.\<close>

definition handleSelectFace :: "string \<Rightarrow> AppState \<Rightarrow> AppState" where
  "handleSelectFace faceDataUrl s =
     (let newSelection = (if librarySelectedFace s = Some faceDataUrl then None
                          else Some faceDataUrl)
      in s\<lparr>librarySelectedFace := newSelection, startSelectedFace := newSelection\<rparr>)"

definition handleDeleteFace :: "Env \<Rightarrow> string \<Rightarrow> AppState \<Rightarrow> AppState" where
  "handleDeleteFace env faceToDelete s =
     (let updatedFaces = filter (\<lambda>face. face \<noteq> faceToDelete) (faces s);
          s1 = saveFacesToStorage env updatedFaces (s\<lparr>faces := updatedFaces\<rparr>)
      in if librarySelectedFace s = Some faceToDelete then
           s1\<lparr>librarySelectedFace := None, startSelectedFace := None\<rparr>
         else s1)"

section \<open>Events\<close>

text \<open>
  Every way the state changes: a handler is called, a setter is called from the markup
  (\<open>setPrompt\<close>, \<open>setActiveTab\<close>, \<open>setCrop\<close>, \<open>setCompletedCrop\<close>, \<open>setAspect\<close>,
  \<open>setIsComparing\<close>, \<open>setError(null)\<close>), React attaches or detaches \<open>imgRef\<close>, a scheduled
  callback fires, an awaited service call settles, the face library mounts, or one of its
  file readers finishes. The events are taken in any order: a handler is not held back by
  \<open>isLoading\<close>, and a call may settle after any number of other events. An uncaught
  exception of \<open>handleApplyCrop\<close> leaves the state as it was.
\<close>

datatype Event =
    FileSelect "File list option"
  | CreateMemory string string
  | Generate
  | ApplyFilter string
  | ApplyAdjustment string
  | ApplyCrop
  | Undo
  | Redo
  | Reset
  | UploadNew
  | ImageClick MouseEvent
  | ApiKeySubmit string
  | ApiKeyClose
  | TimerFires
  | ServiceSettles nat
  | FaceLibraryMounts
  | FaceFileAdd "File list option"
  | ReaderLoads nat string
  | SelectFace string
  | DeleteFace string
  | SetPrompt string
  | SetActiveTab Tab
  | SetCrop Crop
  | SetCompletedCrop PixelCrop
  | SetAspect "real option"
  | SetIsComparing bool
  | DismissError
  | ImgRefAttached "Img option"

fun step :: "Env \<Rightarrow> Event \<Rightarrow> AppState \<Rightarrow> AppState" where
  "step env (FileSelect files) s = handleFileSelect files s"
| "step env (CreateMemory faceDataUrl p) s = handleCreateMemory env faceDataUrl p s"
| "step env Generate s = handleGenerate env s"
| "step env (ApplyFilter filterPrompt) s = handleApplyFilter env filterPrompt s"
| "step env (ApplyAdjustment adjustmentPrompt) s = handleApplyAdjustment env adjustmentPrompt s"
| "step env ApplyCrop s = (case handleApplyCrop env s of Inl err \<Rightarrow> s | Inr s' \<Rightarrow> s')"
| "step env Undo s = handleUndo s"
| "step env Redo s = handleRedo s"
| "step env Reset s = handleReset s"
| "step env UploadNew s = handleUploadNew s"
| "step env (ImageClick e) s = handleImageClick e s"
| "step env (ApiKeySubmit newApiKey) s = handleApiKeySubmit newApiKey s"
| "step env ApiKeyClose s = handleApiKeyClose s"
| "step env TimerFires s = timerFires env s"
| "step env (ServiceSettles n) s = serviceSettles env n s"
| "step env FaceLibraryMounts s = faceLibraryMounts env s"
| "step env (FaceFileAdd files) s = handleFileAdd files s"
| "step env (ReaderLoads n newFace) s = readerLoads env n newFace s"
| "step env (SelectFace faceDataUrl) s = handleSelectFace faceDataUrl s"
| "step env (DeleteFace faceToDelete) s = handleDeleteFace env faceToDelete s"
| "step env (SetPrompt p) s = s\<lparr>prompt := p\<rparr>"
| "step env (SetActiveTab tab) s = s\<lparr>activeTab := tab\<rparr>"
| "step env (SetCrop c) s = s\<lparr>crop := Some c\<rparr>"
| "step env (SetCompletedCrop c) s = s\<lparr>completedCrop := Some c\<rparr>"
| "step env (SetAspect a) s = s\<lparr>aspect := a\<rparr>"
| "step env (SetIsComparing b) s = s\<lparr>isComparing := b\<rparr>"
| "step env DismissError s = s\<lparr>error := None\<rparr>"
| "step env (ImgRefAttached r) s = s\<lparr>imgRef := r\<rparr>"

text \<open>The events in which the face library calls \<open>saveFacesToStorage\<close>.\<close>

fun savesFaces :: "Event \<Rightarrow> bool" where
  "savesFaces (ReaderLoads n newFace) = True"
| "savesFaces (DeleteFace faceToDelete) = True"
| "savesFaces _ = False"

text \<open>A run: events in order, each with the environment in which it happens.\<close>

fun run :: "AppState \<Rightarrow> (Env \<times> Event) list \<Rightarrow> AppState" where
  "run s [] = s"
| "run s ((env, ev) # evs) = run (step env ev s) evs"

text \<open>
  The history invariant: the index is \<open>-1\<close> for an empty history and an index of the
  array otherwise.
\<close>

definition inBounds :: "'a list \<Rightarrow> int \<Rightarrow> bool" where
  "inBounds h i = (if h = [] then i = - 1 else 0 \<le> i \<and> i \<le> int (length h) - 1)"

definition historyInvariant :: "AppState \<Rightarrow> bool" where
  "historyInvariant s = inBounds (history s) (historyIndex s)"

text \<open>
  Every recorded call of the service and every scheduled action carries a key that is
  not empty.
\<close>

definition keysHeld :: "AppState \<Rightarrow> bool" where
  "keysHeld s =
     (list_all (\<lambda>call. callKey call \<noteq> []) (serviceCalls s)
      \<and> list_all (\<lambda>(action, key). key \<noteq> []) (timers s))"

section \<open>Example inputs\<close>

definition fileA :: File where
  "fileA = \<lparr>fileBits = [65], fileName = ''a.png'', fileType = ''image/png''\<rparr>"

definition fileB :: File where
  "fileB = \<lparr>fileBits = [66], fileName = ''b.png'', fileType = ''image/png''\<rparr>"

definition fileC :: File where
  "fileC = \<lparr>fileBits = [67], fileName = ''c.png'', fileType = ''image/png''\<rparr>"

definition fileD :: File where
  "fileD = \<lparr>fileBits = [68], fileName = ''d.png'', fileType = ''image/png''\<rparr>"

text \<open>A state with the given history and index, and no key.\<close>

definition stateAt :: "File list \<Rightarrow> int \<Rightarrow> AppState" where
  "stateAt h i = (initialState Map.empty Map.empty)\<lparr>history := h, historyIndex := i\<rparr>"

text \<open>
  A browser whose \<open>atob\<close> returns its argument, whose service answers every call with one
  PNG data URL, whose canvas encodes to \<open>data:,\<close> when it has no pixels and to a PNG data
  URL otherwise, and whose \<open>JSON.stringify\<close> joins the strings with commas.
\<close>

definition browserEnv :: Env where
  "browserEnv =
     \<lparr>atob = (\<lambda>b. Inr b),
      dateNow = (\<lambda>k. 7 + k),
      service = (\<lambda>call. Inr ''data:image/png;base64,QUJD''),
      devicePixelRatio = 1,
      hasContext2d = True,
      toDataURL = (\<lambda>canvas.
        if canvasWidth canvas = Fin 0 \<or> canvasHeight canvas = Fin 0 then ''data:,''
        else ''data:image/png;base64,Q1JPUA==''),
      jsonStringify = (\<lambda>strings. concat (map (\<lambda>str. str @ '','') strings)),
      jsonParse = (\<lambda>str. Inr [str]),
      setItemThrows = False\<rparr>"

definition photo :: Img where
  "photo = \<lparr>naturalWidth = 3, naturalHeight = 4, imgWidth = 2, imgHeight = 3,
            clientWidth = 2, clientHeight = 3, rectLeft = 10, rectTop = 20\<rparr>"

text \<open>An image of 1300 by 1300 pixels displayed at 600 by 600, at the origin of the page.\<close>

definition widePhoto :: Img where
  "widePhoto = \<lparr>naturalWidth = 1300, naturalHeight = 1300, imgWidth = 600, imgHeight = 600,
                clientWidth = 600, clientHeight = 600, rectLeft = 0, rectTop = 0\<rparr>"

text \<open>A completed selection ten pixels wide and of height zero, on the crop tab.\<close>

definition zeroHeightSelection :: AppState where
  "zeroHeightSelection =
     (stateAt [fileA] 0)
       \<lparr>activeTab := TabCrop,
        completedCrop := Some \<lparr>cropX = 0, cropY = 0, cropWidth = 10, cropHeight = 0,
                               cropUnit = UnitPx\<rparr>,
        imgRef := Some photo\<rparr>"

definition clickAt :: "real \<Rightarrow> real \<Rightarrow> MouseEvent" where
  "clickAt cx cy = \<lparr>clientX = cx, clientY = cy, currentTarget = photo\<rparr>"

text \<open>An image, a prompt and a hotspot, and no key.\<close>

definition readyToGenerate :: AppState where
  "readyToGenerate =
     (stateAt [fileA] 0)
       \<lparr>prompt := ''make it blue'',
        editHotspot := Some \<lparr>xCoord = Fin 11, yCoord = Fin 7\<rparr>\<rparr>"

text \<open>
  A session: upload, click, prompt, generate without a key, submit a key, the scheduled
  action fires, and the service answers.
\<close>

definition editSession :: "(Env \<times> Event) list" where
  "editSession =
     [(browserEnv, FileSelect (Some [fileA])),
      (browserEnv, ImageClick (clickAt 17 25)),
      (browserEnv, SetPrompt ''make it blue''),
      (browserEnv, Generate),
      (browserEnv, ApiKeySubmit '' k1 ''),
      (browserEnv, TimerFires),
      (browserEnv, ServiceSettles 0)]"

text \<open>A first render that finds the key \<open>k1\<close> in session storage.\<close>

definition keyedStart :: AppState where
  "keyedStart = initialState [''user-api-key'' \<mapsto> ''k1''] Map.empty"

text \<open>
  Upload New while a filter is awaited: upload, apply a filter, Upload New, and then the
  service answers.
\<close>

definition uploadNewWhileFiltering :: "(Env \<times> Event) list" where
  "uploadNewWhileFiltering =
     [(browserEnv, FileSelect (Some [fileA])),
      (browserEnv, ApplyFilter ''sepia''),
      (browserEnv, UploadNew),
      (browserEnv, ServiceSettles 0)]"

text \<open>
  Undo while a filter is awaited: upload, apply a first filter and let the service answer;
  apply a second filter, undo, and then the service answers, two milliseconds later.
\<close>

definition undoWhileFiltering :: "(Env \<times> Event) list" where
  "undoWhileFiltering =
     [(browserEnv, FileSelect (Some [fileA])),
      (browserEnv, ApplyFilter ''sepia''),
      (browserEnv, ServiceSettles 0),
      (browserEnv, ApplyFilter ''noir''),
      (browserEnv, Undo),
      (browserEnv\<lparr>dateNow := (\<lambda>k. 9 + k)\<rparr>, ServiceSettles 0)]"

text \<open>The files the example service produces for a filter, named by the time of the answer.\<close>

definition filteredAt :: "nat \<Rightarrow> File" where
  "filteredAt t = \<lparr>fileBits = [81, 85, 74, 68], fileName = ''filtered-'' @ showNat t @ ''.png'',
                    fileType = ''image/png''\<rparr>"

section \<open>Doubles at small numbers\<close>

text \<open>
  Rounding to a double is evaluated by unfolding these definitions; \<open>binade\<close> is unfolded
  once for each halving or doubling.
\<close>

lemmas double_eval = toDouble_def nearestDouble_def roundHalfEven_def power_int_def
  power_divide Let_def binade.simps

lemma toDouble_0: "toDouble 0 = Fin 0"
  by (simp add: toDouble_def)

lemma toDouble_7: "toDouble 7 = Fin 7"
  by (simp add: double_eval)

lemma toDouble_5: "toDouble 5 = Fin 5"
  by (simp add: double_eval)

lemma toDouble_27: "toDouble 27 = Fin 27"
  by (simp add: double_eval)

lemma scale_7: "scaleToNatural (Fin 7) 3 2 = Fin 11"
  by (simp add: scaleToNatural_def jsDivide_def double_eval round_def)

lemma scale_5: "scaleToNatural (Fin 5) 4 3 = Fin 7"
  by (simp add: scaleToNatural_def jsDivide_def double_eval round_def)

lemma quotient_1300_600: "jsDivide 1300 600 = Fin (4878899596318037 / 2251799813685248)"
  by (simp add: jsDivide_def double_eval)

lemma scale_27: "scaleToNatural (Fin 27) 1300 600 = Fin 58"
  by (simp add: scaleToNatural_def quotient_1300_600 double_eval round_def)

lemma scale_0: "scaleToNatural (Fin 0) 1300 600 = Fin 0"
  by (simp add: scaleToNatural_def quotient_1300_600 toDouble_0)

lemma toDouble_10: "toDouble 10 = Fin 10"
  by (simp add: double_eval)

lemma click_example:
  "activeTab s = TabRetouch \<Longrightarrow>
   handleImageClick (clickAt 17 25) s
     = s\<lparr>displayHotspot := Some \<lparr>xCoord = Fin 7, yCoord = Fin 5\<rparr>,
         editHotspot := Some \<lparr>xCoord = Fin 11, yCoord = Fin 7\<rparr>\<rparr>"
  by (simp add: handleImageClick_def clickAt_def photo_def jsMinus_def toDouble_7 toDouble_5
      scale_7 scale_5 Let_def)

section \<open>The two ways a generation handler ends\<close>

lemma withApiKey_cases:
  "withApiKey env action s =
     (if noCredential s then deferAction action s
      else startAction env action (the (apiKey s)) s)"
  by (simp add: withApiKey_def noCredential_def split: option.splits)

section \<open>The history position stays in bounds\<close>

lemma historyInvariant_addImageToHistory: "historyInvariant (addImageToHistory h i f s)"
  by (simp add: historyInvariant_def inBounds_def addImageToHistory_def Let_def)

lemma historyInvariant_failWith: "historyInvariant (failWith prefix err s) = historyInvariant s"
  by (simp add: historyInvariant_def failWith_def)

lemma historyInvariant_await: "historyInvariant (await call action s) = historyInvariant s"
  by (simp add: historyInvariant_def await_def)

lemma historyInvariant_irrelevant:
  "historyInvariant (s\<lparr>isLoading := b\<rparr>) = historyInvariant s"
  "historyInvariant (s\<lparr>error := e\<rparr>) = historyInvariant s"
  "historyInvariant (s\<lparr>editHotspot := hs\<rparr>) = historyInvariant s"
  "historyInvariant (s\<lparr>displayHotspot := hs\<rparr>) = historyInvariant s"
  "historyInvariant (s\<lparr>pendingAction := pa\<rparr>) = historyInvariant s"
  "historyInvariant (s\<lparr>isApiKeyModalOpen := b\<rparr>) = historyInvariant s"
  "historyInvariant (s\<lparr>timers := ts\<rparr>) = historyInvariant s"
  "historyInvariant (s\<lparr>inFlight := fl\<rparr>) = historyInvariant s"
  "historyInvariant (s\<lparr>localStorage := ls\<rparr>) = historyInvariant s"
  "historyInvariant (s\<lparr>faces := fs\<rparr>) = historyInvariant s"
  "historyInvariant (s\<lparr>readers := rs\<rparr>) = historyInvariant s"
  "historyInvariant (s\<lparr>librarySelectedFace := sf\<rparr>) = historyInvariant s"
  "historyInvariant (s\<lparr>startSelectedFace := sf\<rparr>) = historyInvariant s"
  "historyInvariant (s\<lparr>libraryInstance := li\<rparr>) = historyInvariant s"
  by (simp_all add: historyInvariant_def)

lemma historyInvariant_startAction:
  "historyInvariant (startAction env a key s) = historyInvariant s"
  by (cases a)
     (simp_all add: Let_def historyInvariant_failWith historyInvariant_await
        historyInvariant_irrelevant split: sum.splits)

lemma historyInvariant_onResolved: "historyInvariant (onResolved a f s)"
  by (cases a)
     (simp_all add: historyInvariant_irrelevant historyInvariant_addImageToHistory,
      simp add: historyInvariant_def inBounds_def)

lemma historyInvariant_continueAction:
  "historyInvariant s \<Longrightarrow> historyInvariant (continueAction env a outcome s)"
  by (simp add: continueAction_def historyInvariant_failWith historyInvariant_irrelevant
      historyInvariant_onResolved split: sum.splits)

lemma historyInvariant_serviceSettles:
  "historyInvariant s \<Longrightarrow> historyInvariant (serviceSettles env n s)"
  by (simp add: serviceSettles_def historyInvariant_continueAction historyInvariant_irrelevant
      split: prod.splits)

lemma historyInvariant_withApiKey:
  "historyInvariant (withApiKey env a s) = historyInvariant s"
  by (simp add: withApiKey_cases deferAction_def historyInvariant_irrelevant
      historyInvariant_startAction)

lemma historyInvariant_timerFires:
  "historyInvariant (timerFires env s) = historyInvariant s"
  by (simp add: timerFires_def historyInvariant_irrelevant historyInvariant_startAction
      split: list.splits)

lemma historyInvariant_saveFacesToStorage:
  "historyInvariant (saveFacesToStorage env fs s) = historyInvariant s"
  by (simp add: saveFacesToStorage_def historyInvariant_irrelevant)

lemma historyInvariant_faceLibrary:
  "historyInvariant (faceLibraryMounts env s) = historyInvariant s"
  "historyInvariant (handleFileAdd files s) = historyInvariant s"
  "historyInvariant (readerLoads env n newFace s) = historyInvariant s"
  "historyInvariant (handleSelectFace face s) = historyInvariant s"
  "historyInvariant (handleDeleteFace env face s) = historyInvariant s"
proof -
  show "historyInvariant (faceLibraryMounts env s) = historyInvariant s"
    by (simp add: faceLibraryMounts_def Let_def historyInvariant_irrelevant
        split: option.splits sum.splits)
  show "historyInvariant (handleFileAdd files s) = historyInvariant s"
    by (cases "(files, s)" rule: handleFileAdd.cases)
       (simp_all add: historyInvariant_irrelevant)
  show "historyInvariant (readerLoads env n newFace s) = historyInvariant s"
    by (simp add: readerLoads_def Let_def historyInvariant_irrelevant
        historyInvariant_saveFacesToStorage split: prod.splits)
  show "historyInvariant (handleSelectFace face s) = historyInvariant s"
    by (simp add: handleSelectFace_def Let_def historyInvariant_irrelevant)
  show "historyInvariant (handleDeleteFace env face s) = historyInvariant s"
    by (simp add: handleDeleteFace_def Let_def historyInvariant_irrelevant
        historyInvariant_saveFacesToStorage)
qed

lemma historyInvariant_step: "historyInvariant s \<Longrightarrow> historyInvariant (step env ev s)"
proof (cases ev)
  case (FileSelect files)
  assume "historyInvariant s"
  then show ?thesis
    unfolding FileSelect
    by (cases "(files, s)" rule: handleFileSelect.cases)
       (auto simp: handleImageUpload_def historyInvariant_def inBounds_def)
next
  case ApplyCrop
  assume "historyInvariant s"
  then show ?thesis
    unfolding ApplyCrop
    by (auto simp: handleApplyCrop_def Let_def historyInvariant_irrelevant
          historyInvariant_addImageToHistory split: sum.splits option.splits if_splits)
next
  case (ServiceSettles n)
  assume "historyInvariant s"
  then show ?thesis
    unfolding ServiceSettles by (simp add: historyInvariant_serviceSettles)
qed (auto simp: handleCreateMemory_def handleGenerate_def handleApplyFilter_def
       handleApplyAdjustment_def historyInvariant_withApiKey historyInvariant_irrelevant
       historyInvariant_timerFires historyInvariant_faceLibrary
       handleUndo_def handleRedo_def handleReset_def handleUploadNew_def canUndo_def canRedo_def
       handleImageClick_def Let_def handleApiKeySubmit_def handleApiKeyClose_def
       split: option.splits, auto simp: historyInvariant_def inBounds_def split: if_splits)

lemma historyInvariant_run: "historyInvariant s \<Longrightarrow> historyInvariant (run s evs)"
  by (induction s evs rule: run.induct) (auto simp: historyInvariant_step)

lemma historyInvariant_initialState: "historyInvariant (initialState session local)"
  by (simp add: historyInvariant_def inBounds_def initialState_def)

text \<open>Three runs of the example browser, evaluated.\<close>

lemmas run_eval = initialState_def handleImageUpload_def
  handleGenerate_def handleApplyFilter_def currentImage_def elementAt_def trim_def
  isWhiteSpace_def withApiKey_def deferAction_def handleApiKeySubmit_def timerFires_def
  await_def serviceSettles_def continueAction_def browserEnv_def dataURLtoFile_def
  isLineTerminator_def showNat.simps addImageToHistory_def slice0_def handleUploadNew_def
  handleUndo_def canUndo_def Let_def

lemma editSession_result:
  "history (run (initialState Map.empty Map.empty) editSession)
       = [fileA, \<lparr>fileBits = [81, 85, 74, 68], fileName = ''edited-7.png'',
                   fileType = ''image/png''\<rparr>]
   \<and> historyIndex (run (initialState Map.empty Map.empty) editSession) = 1"
  by (simp add: editSession_def click_example run_eval)

lemma uploadNewWhileFiltering_result:
  "history (run keyedStart uploadNewWhileFiltering) = [fileA, filteredAt 7]
   \<and> historyIndex (run keyedStart uploadNewWhileFiltering) = 1"
  by (simp add: uploadNewWhileFiltering_def keyedStart_def filteredAt_def run_eval)

text \<open>
  Claim C1. After every sequence of events from the first render (uploads, appended edits
  and crops, undo, redo, reset, upload-new, created memories, and every other event of the
  two components, in any order), the history index is \<open>-1\<close> when the history is empty and
  lies between \<open>0\<close> and \<open>length - 1\<close> when it is not. A generation action is two events, its
  start and the answer of the service, with any events in between; it may append with the
  history and index of an earlier render, and the invariant holds all the same.
\<close>

theorem history_position_in_bounds:
  "historyInvariant (run (initialState session local) evs)"
  by (rule historyInvariant_run [OF historyInvariant_initialState])

theorem history_position_in_bounds_witness:
  "historyInvariant (run (initialState Map.empty Map.empty) editSession)
   \<and> history (run (initialState Map.empty Map.empty) editSession)
       = [fileA, \<lparr>fileBits = [81, 85, 74, 68], fileName = ''edited-7.png'',
                   fileType = ''image/png''\<rparr>]
   \<and> historyIndex (run (initialState Map.empty Map.empty) editSession) = 1
   \<and> historyInvariant (run keyedStart uploadNewWhileFiltering)
   \<and> history (run keyedStart uploadNewWhileFiltering) = [fileA, filteredAt 7]
   \<and> historyIndex (run keyedStart uploadNewWhileFiltering) = 1"
  using history_position_in_bounds [of Map.empty Map.empty editSession]
    history_position_in_bounds [of "[''user-api-key'' \<mapsto> ''k1'']" Map.empty
      uploadNewWhileFiltering]
    editSession_result uploadNewWhileFiltering_result
  by (simp add: keyedStart_def)

section \<open>Appending after an await\<close>

text \<open>
  \<open>addImageToHistory\<close> keeps the first \<open>i + 1\<close> images of the history \<open>h\<close> it closes over and
  appends the new one. \<open>handleApplyCrop\<close> calls it in the render of the click, so that \<open>h\<close>
  and \<open>i\<close> are the history and the index of the state. The three generation actions call
  it after their \<open>await\<close>, with the \<open>h\<close> and \<open>i\<close> of the render that created the action.
\<close>

lemma slice0_take: "- 1 \<le> i \<Longrightarrow> slice0 h (i + 1) = take (nat (i + 1)) h"
  by (auto simp: slice0_def Let_def min_def)

lemma addImageToHistory_closure:
  "inBounds h i \<Longrightarrow>
     history (addImageToHistory h i a s) = take (nat (i + 1)) h @ [a]
     \<and> historyIndex (addImageToHistory h i a s) = i + 1"
proof -
  assume "inBounds h i"
  then have "- 1 \<le> i" "i + 1 \<le> int (length h)"
    by (auto simp: inBounds_def split: if_splits)
  then show ?thesis
    by (simp add: addImageToHistory_def Let_def slice0_take)
qed

lemma handleApplyCrop_appends_to_state:
  "handleApplyCrop env s = Inr s' \<Longrightarrow> error s' \<noteq> Some ''Please select an area to crop.'' \<Longrightarrow>
   error s' \<noteq> Some ''Could not process the crop.'' \<Longrightarrow> historyInvariant s \<Longrightarrow>
     \<exists>a. history s' = take (nat (historyIndex s + 1)) (history s) @ [a]
       \<and> historyIndex s' = historyIndex s + 1"
  by (auto simp: handleApplyCrop_def Let_def historyInvariant_def addImageToHistory_closure
      split: option.splits if_splits sum.splits)

lemma onResolved_appends_to_closure:
  "inBounds h i \<Longrightarrow>
     history (onResolved (FilterAction currentFile filterPrompt h i) a s) = take (nat (i + 1)) h @ [a]
     \<and> history (onResolved (AdjustmentAction currentFile adjustmentPrompt h i) a s)
         = take (nat (i + 1)) h @ [a]
     \<and> history (onResolved (GenerateAction currentFile p hotspot h i) a s)
         = take (nat (i + 1)) h @ [a]"
  by (simp add: addImageToHistory_closure)

text \<open>
  Claim C2. Appending to a history \<open>h\<close> at position \<open>i\<close> is to give the first \<open>i + 1\<close> images
  of \<open>h\<close> followed by the new one. The code does otherwise when an event falls between
  the start of a generation action and the answer of the service. With the history
  \<open>[fileA, filteredAt 7]\<close> and a second filter awaited, Undo moves the position to \<open>0\<close>; the
  answer then appends to the history of the earlier render, at its position \<open>1\<close>: the
  history becomes \<open>[fileA, filteredAt 7, filteredAt 9]\<close> at position \<open>2\<close>, and the image
  beyond the current position is kept, where the claim gives \<open>[fileA, filteredAt 9]\<close> at
  position \<open>1\<close>. After Upload New the history is empty; the answer of an awaited filter
  brings the uploaded image back, \<open>[fileA, filteredAt 7]\<close>, where the claim gives
  \<open>[filteredAt 7]\<close>.
\<close>

theorem append_after_await_keeps_redo_tail:
  "history (run keyedStart (butlast undoWhileFiltering)) = [fileA, filteredAt 7]
   \<and> historyIndex (run keyedStart (butlast undoWhileFiltering)) = 0
   \<and> history (run keyedStart undoWhileFiltering) = [fileA, filteredAt 7, filteredAt 9]
   \<and> historyIndex (run keyedStart undoWhileFiltering) = 2
   \<and> history (run keyedStart (butlast uploadNewWhileFiltering)) = []
   \<and> history (run keyedStart uploadNewWhileFiltering) = [fileA, filteredAt 7]"
  by (simp add: undoWhileFiltering_def uploadNewWhileFiltering_def keyedStart_def
      filteredAt_def run_eval)

section \<open>Undo and redo\<close>

text \<open>
  Claim C3. Undo lowers the index by one when it is above \<open>0\<close> and leaves it otherwise;
  redo raises it by one when it is below \<open>length - 1\<close> and leaves it otherwise. Neither
  changes the history, and on a history that is not empty with its index in
  \<open>[0, length - 1]\<close> both leave the index in that range.
\<close>

theorem undo_redo_position:
  "historyIndex (handleUndo s)
     = (if historyIndex s > 0 then historyIndex s - 1 else historyIndex s)
   \<and> historyIndex (handleRedo s)
     = (if historyIndex s < int (length (history s)) - 1 then historyIndex s + 1
        else historyIndex s)
   \<and> history (handleUndo s) = history s
   \<and> history (handleRedo s) = history s
   \<and> (history s \<noteq> [] \<and> 0 \<le> historyIndex s \<and> historyIndex s \<le> int (length (history s)) - 1
        \<longrightarrow> 0 \<le> historyIndex (handleUndo s)
            \<and> historyIndex (handleUndo s) \<le> int (length (history s)) - 1
            \<and> 0 \<le> historyIndex (handleRedo s)
            \<and> historyIndex (handleRedo s) \<le> int (length (history s)) - 1)"
  by (simp add: handleUndo_def handleRedo_def canUndo_def canRedo_def)

theorem undo_redo_position_witness:
  "historyIndex (handleUndo (stateAt [fileA, fileB, fileC] 1)) = 0
   \<and> historyIndex (handleRedo (stateAt [fileA, fileB, fileC] 1)) = 2
   \<and> historyIndex (handleUndo (stateAt [fileA, fileB, fileC] 0)) = 0
   \<and> historyIndex (handleRedo (stateAt [fileA, fileB, fileC] 2)) = 2
   \<and> history (handleUndo (stateAt [fileA, fileB, fileC] 1)) = [fileA, fileB, fileC]
   \<and> history (handleRedo (stateAt [fileA, fileB, fileC] 1)) = [fileA, fileB, fileC]"
  using undo_redo_position [of "stateAt [fileA, fileB, fileC] 1"]
    undo_redo_position [of "stateAt [fileA, fileB, fileC] 0"]
    undo_redo_position [of "stateAt [fileA, fileB, fileC] 2"]
  by (simp add: stateAt_def)

section \<open>Cropping without a selection\<close>

text \<open>
  With no completed selection, or no image element, \<open>handleApplyCrop\<close> shows
  \<open>Please select an area to crop.\<close> and returns. For a completed selection of width zero
  the Apply Crop button is disabled, and a click on it calls no handler.
\<close>

lemma handleApplyCrop_no_selection:
  "completedCrop s = None \<or> imgRef s = None \<Longrightarrow>
     handleApplyCrop env s = Inr (s\<lparr>error := Some ''Please select an area to crop.''\<rparr>)"
  by (auto simp: handleApplyCrop_def split: option.splits)

lemma zero_width_disabled:
  "completedCrop s = Some c \<Longrightarrow> cropWidth c = 0 \<Longrightarrow>
     applyCropDisabled s \<and> clickApplyCrop env s = Inr s"
  by (simp add: clickApplyCrop_def applyCropDisabled_def isCropping_def)

text \<open>
  Claim C4. A crop with no region selected, and in particular with a selection of zero
  width or zero height, is to fail with an error shown to the user. The code does
  otherwise for a selection ten pixels wide and of height zero: \<open>isCropping\<close> tests the
  width only, so the Apply Crop button is enabled; the canvas has no pixels and encodes to
  \<open>data:,\<close>; \<open>dataURLtoFile\<close> throws, and \<open>handleApplyCrop\<close>, which has no \<open>try\<close> block,
  lets the exception escape. No error is set, and the history stays as it was.
\<close>

theorem zero_height_crop_uncaught:
  "applyCropDisabled zeroHeightSelection = False
   \<and> clickApplyCrop browserEnv zeroHeightSelection
       = Inl (Error ''Could not parse MIME type from data URL'')
   \<and> error (step browserEnv ApplyCrop zeroHeightSelection) = None
   \<and> history (step browserEnv ApplyCrop zeroHeightSelection) = [fileA]"
proof -
  have d: "applyCropDisabled zeroHeightSelection = False"
    by (simp add: applyCropDisabled_def isCropping_def zeroHeightSelection_def stateAt_def
        initialState_def)
  have h: "handleApplyCrop browserEnv zeroHeightSelection
      = Inl (Error ''Could not parse MIME type from data URL'')"
    by (simp add: zeroHeightSelection_def stateAt_def initialState_def handleApplyCrop_def
        browserEnv_def photo_def Let_def toDouble_10 toDouble_0 dataURLtoFile_def)
  have s: "error zeroHeightSelection = None" "history zeroHeightSelection = [fileA]"
    by (simp_all add: zeroHeightSelection_def stateAt_def initialState_def)
  from d h s show ?thesis
    by (simp add: clickApplyCrop_def)
qed

section \<open>The error of rounding to a double\<close>

text \<open>
  \<open>binade\<close> finds the exponent of its argument, so that \<open>nearestDouble\<close> is within half a
  unit in the last place: a relative error of \<open>2^(-53)\<close> in the normal range, and an absolute
  error of \<open>2^(-1075)\<close> below it.
\<close>

lemma two_powi_Suc: "(2::real) powi (k + 1) = 2 * 2 powi k"
  by (simp add: power_int_add)

lemma two_powi_pred: "(2::real) powi (k - 1) = 2 powi k / 2"
  by (simp add: power_int_diff)

lemma two_powi_half: "a = b - 1 \<Longrightarrow> (2::real) powi a = 2 powi b / 2"
  by (simp add: power_int_diff)

lemma two_powi_double: "a = b + 1 \<Longrightarrow> (2::real) powi a = 2 * 2 powi b"
  by (simp add: power_int_add)

lemma binade_le_0: "x < 2 \<Longrightarrow> binade n x \<le> 0"
proof (induction n arbitrary: x)
  case 0
  then show ?case by (simp add: binade.simps)
next
  case (Suc n)
  show ?case
  proof (cases "x < 1")
    case True
    then have "binade n (x * 2) \<le> 0"
      by (intro Suc.IH) simp
    with True Suc.prems show ?thesis
      by (simp add: binade.simps [of "Suc n"])
  next
    case False
    with Suc.prems show ?thesis
      by (simp add: binade.simps [of "Suc n"])
  qed
qed

lemma binade_low:
  "x < 2 powi (- int k) \<Longrightarrow> k \<le> n \<Longrightarrow> binade n x \<le> - int k"
proof (induction n arbitrary: x k)
  case 0
  then show ?case by (simp add: binade.simps)
next
  case (Suc n)
  show ?case
  proof (cases k)
    case 0
    with Suc.prems have "x < 1" by simp
    then have "binade (Suc n) x \<le> 0"
      by (intro binade_le_0) simp
    with 0 show ?thesis by simp
  next
    case (Suc k')
    have "(2::real) powi (- int k) \<le> 2 powi (- 1)"
      by (rule power_int_increasing) (simp_all add: Suc)
    then have le1: "(2::real) powi (- int k) \<le> 1 / 2"
      by (simp add: power_int_minus)
    with Suc.prems have x1: "x < 1" by simp
    have "(2::real) powi (- int k) = 2 powi (- int k') / 2"
      by (rule two_powi_half) (simp add: Suc)
    with Suc.prems(1) have "x * 2 < 2 powi (- int k')"
      by simp
    moreover have "k' \<le> n"
      using Suc.prems(2) Suc by simp
    ultimately have "binade n (x * 2) \<le> - int k'"
      by (rule Suc.IH)
    with x1 Suc show ?thesis
      by (simp add: binade.simps [of "Suc n"])
  qed
qed

lemma binade_bounds:
  "2 powi (- int n) \<le> x \<Longrightarrow> x < 2 powi (int n + 1) \<Longrightarrow>
     2 powi (binade n x) \<le> x \<and> x < 2 powi (binade n x + 1)"
proof (induction n arbitrary: x)
  case 0
  then show ?case by (simp add: binade.simps)
next
  case (Suc n)
  have "(2::real) powi (- int n) \<le> 2 powi 0"
    by (rule power_int_increasing) simp_all
  then have small: "(2::real) powi (- int n) \<le> 1"
    by simp
  have half: "(2::real) powi (- int (Suc n)) = 2 powi (- int n) / 2"
    by (rule two_powi_half) simp
  have dbl: "(2::real) powi (int (Suc n) + 1) = 2 * 2 powi (int n + 1)"
    by (rule two_powi_double) simp
  have big: "(2::real) \<le> 2 powi (int n + 1)"
    using one_le_power_int [of "2::real" "int n"] by (simp add: two_powi_Suc)
  consider "2 \<le> x" | "x < 1" | "1 \<le> x" "x < 2"
    by linarith
  then show ?case
  proof cases
    case 1
    have "2 powi (- int n) \<le> x / 2"
      using small 1 by simp
    moreover have "x / 2 < 2 powi (int n + 1)"
      using Suc.prems(2) dbl by simp
    ultimately have ih: "2 powi (binade n (x / 2)) \<le> x / 2
        \<and> x / 2 < 2 powi (binade n (x / 2) + 1)"
      by (rule Suc.IH)
    have b: "binade (Suc n) x = binade n (x / 2) + 1"
      using 1 by (simp add: binade.simps [of "Suc n"])
    have "2 powi (binade n (x / 2) + 1) \<le> x"
      using ih two_powi_Suc [of "binade n (x / 2)"] by simp
    moreover have "x < 2 powi (binade n (x / 2) + 1 + 1)"
      using ih two_powi_Suc [of "binade n (x / 2) + 1"] by simp
    ultimately show ?thesis
      unfolding b by blast
  next
    case 2
    have "2 powi (- int n) \<le> x * 2"
      using Suc.prems(1) half by simp
    moreover have "x * 2 < 2 powi (int n + 1)"
      using 2 big by simp
    ultimately have ih: "2 powi (binade n (x * 2)) \<le> x * 2
        \<and> x * 2 < 2 powi (binade n (x * 2) + 1)"
      by (rule Suc.IH)
    have b: "binade (Suc n) x = binade n (x * 2) - 1"
      using 2 by (simp add: binade.simps [of "Suc n"])
    have "2 powi (binade n (x * 2) - 1) \<le> x"
      using ih two_powi_pred [of "binade n (x * 2)"] by simp
    moreover have "x < 2 powi (binade n (x * 2) - 1 + 1)"
      using ih two_powi_Suc [of "binade n (x * 2)"] by simp
    ultimately show ?thesis
      unfolding b by blast
  next
    case 3
    then have "binade (Suc n) x = 0"
      by (simp add: binade.simps [of "Suc n"])
    with 3 show ?thesis by simp
  qed
qed

lemma roundHalfEven_error: "\<bar>of_int (roundHalfEven m) - m\<bar> \<le> (1 / 2 :: real)"
proof -
  define f where "f = \<lfloor>m\<rfloor>"
  define d where "d = m - of_int f"
  have d: "0 \<le> d" "d < 1"
    unfolding d_def f_def by linarith+
  have m: "m = of_int f + d"
    by (simp add: d_def)
  have r: "roundHalfEven m
      = (if d < 1 / 2 then f else if 1 / 2 < d then f + 1 else if even f then f else f + 1)"
    by (simp add: roundHalfEven_def Let_def f_def d_def)
  have "\<bar>of_int (roundHalfEven m) - (of_int f + d)\<bar> \<le> 1 / 2"
    unfolding r using d by (simp add: abs_if)
  then show ?thesis
    by (simp add: d_def)
qed

lemma nearestDouble_rounding:
  assumes "0 < x"
  shows "\<bar>nearestDouble x - x\<bar> \<le> 2 powi (max (binade 2098 x) (- 1022) - 53)"
proof -
  define e where "e = max (binade 2098 x) (- 1022)"
  define ulp :: real where "ulp = 2 powi (e - 52)"
  have pos: "0 < ulp"
    by (simp add: ulp_def)
  have nd: "nearestDouble x = of_int (roundHalfEven (x / ulp)) * ulp"
    by (simp add: nearestDouble_def Let_def e_def ulp_def)
  have "of_int (roundHalfEven (x / ulp)) * ulp - x
      = (of_int (roundHalfEven (x / ulp)) - x / ulp) * ulp"
    using pos by (simp add: field_simps)
  then have "\<bar>of_int (roundHalfEven (x / ulp)) * ulp - x\<bar>
      = \<bar>of_int (roundHalfEven (x / ulp)) - x / ulp\<bar> * ulp"
    using pos by (simp add: abs_mult)
  also have "\<dots> \<le> (1 / 2) * ulp"
    by (rule mult_right_mono [OF roundHalfEven_error]) (use pos in simp)
  also have "\<dots> = 2 powi (e - 53)"
    unfolding ulp_def using two_powi_half [of "e - 53" "e - 52"] by simp
  finally show ?thesis
    unfolding nd e_def .
qed

lemma nearestDouble_normal:
  assumes lo: "2 powi (- 1022) \<le> x" and hi: "x < 2 powi 1024"
  shows "\<bar>nearestDouble x - x\<bar> \<le> x * 2 powi (- 53)"
proof -
  have pos: "0 < x"
    using lo zero_less_power_int [of "2::real" "- 1022"] by linarith
  have "(2::real) powi (- int 2098) \<le> 2 powi (- 1022)"
    by (rule power_int_increasing) simp_all
  with lo have l: "2 powi (- int 2098) \<le> x"
    by linarith
  have "(2::real) powi 1024 \<le> 2 powi (int 2098 + 1)"
    by (rule power_int_increasing) simp_all
  with hi have h: "x < 2 powi (int 2098 + 1)"
    by linarith
  from binade_bounds [OF l h]
  have b: "2 powi (binade 2098 x) \<le> x" "x < 2 powi (binade 2098 x + 1)"
    by simp_all
  have "- 1022 < binade 2098 x + 1"
  proof (rule ccontr)
    assume "\<not> - 1022 < binade 2098 x + 1"
    then have "(2::real) powi (binade 2098 x + 1) \<le> 2 powi (- 1022)"
      by (intro power_int_increasing) simp_all
    with b(2) lo show False
      by linarith
  qed
  then have e: "max (binade 2098 x) (- 1022) = binade 2098 x"
    by simp
  have "\<bar>nearestDouble x - x\<bar> \<le> 2 powi (binade 2098 x - 53)"
    using nearestDouble_rounding [OF pos] unfolding e .
  also have "\<dots> = 2 powi (binade 2098 x) * 2 powi (- 53)"
    using power_int_add [of "2::real" "binade 2098 x" "- 53"] by simp
  also have "\<dots> \<le> x * 2 powi (- 53)"
    by (rule mult_right_mono [OF b(1)]) simp
  finally show ?thesis .
qed

lemma nearestDouble_subnormal:
  assumes pos: "0 < x" and small: "x < 2 powi (- 1022)"
  shows "\<bar>nearestDouble x - x\<bar> \<le> 2 powi (- 1075)"
proof -
  have "binade 2098 x \<le> - int 1022"
    by (rule binade_low) (use small in simp_all)
  then have e: "max (binade 2098 x) (- 1022) = - 1022"
    by simp
  show ?thesis
    using nearestDouble_rounding [OF pos] unfolding e by simp
qed

lemma nearestDouble_error:
  assumes "0 < x" and "x < 2 powi 1024"
  shows "\<bar>nearestDouble x - x\<bar> \<le> x * 2 powi (- 53) + 2 powi (- 1075)"
proof (cases "2 powi (- 1022) \<le> x")
  case True
  have "0 \<le> (2::real) powi (- 1075)"
    by simp
  with nearestDouble_normal [OF True assms(2)] show ?thesis
    by linarith
next
  case False
  then have "\<bar>nearestDouble x - x\<bar> \<le> 2 powi (- 1075)"
    by (intro nearestDouble_subnormal assms) simp
  moreover have "0 \<le> x * 2 powi (- 53)"
    using assms(1) by simp
  ultimately show ?thesis
    by linarith
qed

lemma two_powi_1024: "(2::real) powi 1024 = 2 * 2 powi 1023"
  by (rule two_powi_double) simp

lemma toDouble_error:
  assumes "\<bar>x\<bar> \<le> 2 powi 1022"
  shows "\<exists>y. toDouble x = Fin y \<and> \<bar>y - x\<bar> \<le> \<bar>x\<bar> * 2 powi (- 53) + 2 powi (- 1075)"
proof -
  define u :: real where "u = 2 powi (- 53)"
  define t :: real where "t = 2 powi (- 1075)"
  define y where "y = (if x = 0 then 0 else if 0 < x then nearestDouble x else - nearestDouble (- x))"
  have p22: "(2::real) powi 1022 < 2 powi 1024"
    by (rule power_int_strict_increasing) simp_all
  have u0: "0 \<le> u" and t0: "0 \<le> t"
    by (simp_all add: u_def t_def)
  have err: "\<bar>y - x\<bar> \<le> \<bar>x\<bar> * u + t"
  proof -
    consider "x = 0" | "0 < x" | "x < 0"
      by linarith
    then show ?thesis
    proof cases
      case 1
      then show ?thesis using t0 by (simp add: y_def)
    next
      case 2
      then have "x < 2 powi 1024"
        using assms p22 by simp
      from nearestDouble_error [OF 2 this] 2 show ?thesis
        unfolding u_def t_def y_def by (simp only: if_True if_False abs_of_pos, simp)
    next
      case 3
      then have n: "0 < - x" "- x < 2 powi 1024"
        using assms p22 by simp_all
      have "y - x = - (nearestDouble (- x) - (- x))"
        using 3 by (simp add: y_def)
      then have "\<bar>y - x\<bar> = \<bar>nearestDouble (- x) - (- x)\<bar>"
        by (simp only: abs_minus)
      also have "\<dots> \<le> (- x) * u + t"
        unfolding u_def t_def by (rule nearestDouble_error [OF n])
      also have "(- x) * u + t = \<bar>x\<bar> * u + t"
        using 3 by simp
      finally show ?thesis .
    qed
  qed
  have u1: "u \<le> 1"
    unfolding u_def using power_int_increasing [of "- 53" 0 "2::real"] by simp
  have t1: "t \<le> 1"
    unfolding t_def using power_int_increasing [of "- 1075" 0 "2::real"] by simp
  have "\<bar>x\<bar> * u \<le> \<bar>x\<bar> * 1"
    by (rule mult_left_mono [OF u1]) simp
  with err t1 have "\<bar>y\<bar> \<le> 2 * \<bar>x\<bar> + 1"
    by linarith
  also have "\<dots> \<le> 2 * 2 powi 1022 + 1"
    using assms by linarith
  also have "\<dots> = 2 powi 1023 + 1"
    using two_powi_double [of 1023 1022] by linarith
  also have "\<dots> < 2 powi 1023 + 2 powi 1023"
    using one_less_power_int [of "2::real" 1023] by linarith
  also have "\<dots> = 2 powi 1024"
    using two_powi_1024 by linarith
  finally have "\<not> 2 powi 1024 \<le> \<bar>y\<bar>"
    by linarith
  then have "toDouble x = Fin y"
    unfolding toDouble_def y_def [symmetric] Let_def by (simp only: if_False)
  with err show ?thesis
    unfolding u_def t_def by blast
qed

lemma toDouble_normal:
  assumes "2 powi (- 1022) \<le> x" and "x \<le> 2 powi 1022"
  shows "\<exists>y. toDouble x = Fin y \<and> \<bar>y - x\<bar> \<le> x * 2 powi (- 53)"
proof -
  have pos: "0 < x"
    using assms(1) zero_less_power_int [of "2::real" "- 1022"] by linarith
  have p22: "(2::real) powi 1022 < 2 powi 1024"
    by (rule power_int_strict_increasing) simp_all
  from toDouble_error [of x] assms(2) pos obtain y where
    y: "toDouble x = Fin y"
    by auto
  have "\<not> 2 powi 1024 \<le> \<bar>nearestDouble x\<bar>"
    using y pos by (simp add: toDouble_def Let_def split: if_splits)
  then have "toDouble x = Fin (nearestDouble x)"
    using pos by (simp add: toDouble_def Let_def)
  moreover have "\<bar>nearestDouble x - x\<bar> \<le> x * 2 powi (- 53)"
    by (rule nearestDouble_normal) (use assms p22 in simp_all)
  ultimately show ?thesis
    by blast
qed

lemma two_roundings:
  fixes a u t e1 e2 :: real
  assumes a: "0 \<le> a" and u: "0 \<le> u" "u \<le> 1"
    and e1: "e1 \<le> a * u" and e2: "e2 \<le> (a + a * u) * u + t"
  shows "e1 + e2 \<le> a * (4 * u) + t"
proof -
  have "a * u * u \<le> a * u * 1"
    by (rule mult_left_mono [OF u(2)]) (use a u in simp)
  then have "(a + a * u) * u \<le> 2 * (a * u)"
    by (simp add: algebra_simps)
  moreover have "0 \<le> a * u"
    using a u by simp
  ultimately show ?thesis
    using e1 e2 by (simp add: algebra_simps)
qed

lemma scaled_product_error:
  assumes n: "0 < natural" "natural < 2 ^ 32" and c: "0 < client" "client < 2 ^ 32"
    and d: "\<bar>d\<bar> \<le> 2 ^ 32"
  shows "\<exists>p. jsTimes (Fin d) (jsDivide (real natural) (real client)) = Fin p
    \<and> \<bar>p - d * (real natural / real client)\<bar> \<le> doubleError (d * (real natural / real client))"
proof -
  define r where "r = real natural / real client"
  define u :: real where "u = 2 powi (- 53)"
  define t :: real where "t = 2 powi (- 1075)"
  have u: "0 \<le> u" "u \<le> 1"
    unfolding u_def using power_int_increasing [of "- 53" 0 "2::real"] by simp_all
  have rpos: "0 < r"
    using n c by (simp add: r_def)
  have "1 \<le> real natural" "real client \<le> 2 ^ 32" "real natural \<le> 2 ^ 32" "1 \<le> real client"
    using n c by simp_all
  then have "1 / 2 ^ 32 \<le> r" and rhi: "r \<le> 2 ^ 32"
    unfolding r_def using c by (simp_all add: field_simps mult_mono order_trans [of _ "1::real"])
  moreover have "(2::real) powi (- 1022) \<le> 2 powi (- 32)"
    by (rule power_int_increasing) simp_all
  moreover have "(2::real) powi (- 32) = 1 / 2 ^ 32"
    by (simp add: power_int_minus_divide)
  ultimately have rlo: "2 powi (- 1022) \<le> r"
    by linarith
  have p32: "(2::real) ^ 32 = 2 powi 32" and p65: "(2::real) ^ 65 = 2 powi 65"
    by simp_all
  have "(2::real) powi 32 \<le> 2 powi 1022"
    by (rule power_int_increasing) simp_all
  with rhi p32 have "r \<le> 2 powi 1022"
    by linarith
  from toDouble_normal [OF rlo this] obtain q where
    q: "toDouble r = Fin q" "\<bar>q - r\<bar> \<le> r * u"
    unfolding u_def by blast
  have div: "jsDivide (real natural) (real client) = Fin q"
    using c q(1) by (simp add: jsDivide_def r_def)
  have qabs: "\<bar>q\<bar> \<le> r + r * u"
    using q(2) rpos by (simp add: abs_le_iff) 
  have "r * u \<le> r * 1"
    by (rule mult_left_mono [OF u(2)]) (use rpos in simp)
  with qabs rhi have "\<bar>q\<bar> \<le> 2 * 2 ^ 32"
    by linarith
  then have "\<bar>d\<bar> * \<bar>q\<bar> \<le> 2 ^ 32 * (2 * 2 ^ 32)"
    by (intro mult_mono d) simp_all
  then have "\<bar>d * q\<bar> \<le> 2 powi 65"
    by (simp add: abs_mult)
  moreover have "(2::real) powi 65 \<le> 2 powi 1022"
    by (rule power_int_increasing) simp_all
  ultimately have "\<bar>d * q\<bar> \<le> 2 powi 1022"
    by linarith
  from toDouble_error [OF this] obtain p where
    p: "toDouble (d * q) = Fin p" "\<bar>p - d * q\<bar> \<le> \<bar>d * q\<bar> * u + t"
    unfolding u_def t_def by blast
  have times: "jsTimes (Fin d) (jsDivide (real natural) (real client)) = Fin p"
    using div p(1) by simp
  define a where "a = \<bar>d * r\<bar>"
  have a: "0 \<le> a" "a = \<bar>d\<bar> * r"
    using rpos by (simp_all add: a_def abs_mult)
  have "\<bar>d * q - d * r\<bar> = \<bar>d\<bar> * \<bar>q - r\<bar>"
    by (simp add: abs_mult right_diff_distrib [symmetric])
  also have "\<dots> \<le> \<bar>d\<bar> * (r * u)"
    by (rule mult_left_mono [OF q(2)]) simp
  finally have e1: "\<bar>d * q - d * r\<bar> \<le> a * u"
    by (simp add: a(2) mult.assoc)
  have "\<bar>d * q\<bar> = \<bar>d\<bar> * \<bar>q\<bar>"
    by (simp add: abs_mult)
  also have "\<dots> \<le> \<bar>d\<bar> * (r + r * u)"
    by (rule mult_left_mono [OF qabs]) simp
  finally have "\<bar>d * q\<bar> \<le> a + a * u"
    by (simp add: a(2) algebra_simps)
  then have "\<bar>d * q\<bar> * u \<le> (a + a * u) * u"
    by (rule mult_right_mono) (rule u(1))
  with p(2) have e2: "\<bar>p - d * q\<bar> \<le> (a + a * u) * u + t"
    by linarith
  have "\<bar>p - d * r\<bar> \<le> \<bar>d * q - d * r\<bar> + \<bar>p - d * q\<bar>"
    by linarith
  also have "\<dots> \<le> a * (4 * u) + t"
    by (rule two_roundings [OF a(1) u e1 e2])
  also have "4 * u = 2 powi (- 51)"
    unfolding u_def using two_powi_double [of "- 52" "- 53"] two_powi_double [of "- 51" "- 52"]
    by linarith
  finally have "\<bar>p - d * r\<bar> \<le> doubleError (d * r)"
    by (simp only: doubleError_def a_def t_def)
  with times show ?thesis
    unfolding r_def by blast
qed

lemma round_stable:
  fixes p x delta :: real
  assumes close: "\<bar>p - x\<bar> \<le> delta"
    and far: "\<And>k::int. delta < \<bar>x - (of_int k + 1 / 2)\<bar>"
  shows "round p = round x"
proof -
  define m where "m = round x"
  have m: "of_int m - 1 / 2 \<le> x" "x < of_int m + 1 / 2"
    unfolding m_def round_def by linarith+
  have "delta < \<bar>x - (of_int m + 1 / 2)\<bar>"
    by (rule far)
  with m have up: "x + delta < of_int m + 1 / 2"
    by linarith
  have "delta < \<bar>x - (of_int (m - 1) + 1 / 2)\<bar>"
    by (rule far)
  with m have lo: "of_int m - 1 / 2 < x - delta"
    by (simp add: abs_if split: if_splits)
  have "of_int m \<le> p + 1 / 2" "p + 1 / 2 < of_int m + 1"
    using close up lo by linarith+
  then have "\<lfloor>p + 1 / 2\<rfloor> = m"
    by linarith
  then show ?thesis
    by (simp add: round_def m_def)
qed

lemma doubleError_nonneg: "0 \<le> doubleError x"
  by (simp add: doubleError_def)

lemma scaled_product_error0:
  assumes n: "natural < 2 ^ 32" and c: "0 < client" "client < 2 ^ 32"
    and d: "\<bar>d\<bar> \<le> 2 ^ 32"
  shows "\<exists>p. jsTimes (Fin d) (jsDivide (real natural) (real client)) = Fin p
    \<and> \<bar>p - d * (real natural / real client)\<bar> \<le> doubleError (d * (real natural / real client))"
proof (cases "natural = 0")
  case True
  have "jsTimes (Fin d) (jsDivide (real natural) (real client)) = Fin 0"
    using c True by (simp add: jsDivide_def toDouble_0)
  then show ?thesis
    using True doubleError_nonneg [of 0] by simp
next
  case False
  then have "0 < natural" by simp
  from scaled_product_error [OF this n c d] show ?thesis .
qed

lemma halfDistance_least: "halfDistance x \<le> \<bar>x - (of_int k + 1 / 2)\<bar>"
proof -
  define f where "f = \<lfloor>x\<rfloor>"
  have f: "of_int f \<le> x" "x < of_int f + 1"
    unfolding f_def by linarith+
  consider "k = f" | "k \<le> f - 1" | "f + 1 \<le> k"
    by linarith
  then show ?thesis
  proof cases
    case 1
    then show ?thesis by (simp add: halfDistance_def f_def)
  next
    case 2
    then have "(of_int k :: real) \<le> of_int (f - 1)"
      by (simp only: of_int_le_iff)
    then have "(of_int k :: real) \<le> of_int f - 1"
      by simp
    with f show ?thesis
      unfolding halfDistance_def f_def [symmetric] by linarith
  next
    case 3
    then have "(of_int (f + 1) :: real) \<le> of_int k"
      by (simp only: of_int_le_iff)
    then have "(of_int f :: real) + 1 \<le> of_int k"
      by simp
    with f show ?thesis
      unfolding halfDistance_def f_def [symmetric] by linarith
  qed
qed

lemma scaleToNatural_axis:
  assumes n: "natural < 2 ^ 32" and c: "0 < client" "client < 2 ^ 32"
    and d: "\<bar>d\<bar> \<le> 2 ^ 32"
  shows "\<exists>h. scaleToNatural (Fin d) natural client = Fin (of_int h)
    \<and> \<bar>of_int h - d * real natural / real client\<bar>
        \<le> 1 / 2 + doubleError (d * real natural / real client)
    \<and> (doubleError (d * real natural / real client) < halfDistance (d * real natural / real client)
        \<longrightarrow> h = round (d * real natural / real client))"
proof -
  define x where "x = d * real natural / real client"
  from scaled_product_error0 [OF n c d] obtain p where
    p: "jsTimes (Fin d) (jsDivide (real natural) (real client)) = Fin p"
      "\<bar>p - x\<bar> \<le> doubleError x"
    unfolding x_def by auto
  have s: "scaleToNatural (Fin d) natural client = Fin (of_int (round p))"
    using p(1) by (simp add: scaleToNatural_def Let_def)
  have "\<bar>of_int (round p) - p\<bar> \<le> 1 / 2"
    by (rule of_int_round_abs_le)
  with p(2) have e: "\<bar>of_int (round p) - x\<bar> \<le> 1 / 2 + doubleError x"
    by linarith
  have "round p = round x" if far: "doubleError x < halfDistance x"
  proof (rule round_stable [OF p(2)])
    fix k :: int
    from far halfDistance_least [of x k] show "doubleError x < \<bar>x - (of_int k + 1 / 2)\<bar>"
      by linarith
  qed
  with s e show ?thesis
    unfolding x_def by blast
qed

section \<open>The hotspot in natural coordinates\<close>

text \<open>
  Claim C5, as amended. On the retouch tab, a click at the displayed offset \<open>(dx, dy)\<close> on
  an image of natural size \<open>(NW, NH)\<close> displayed at the positive size \<open>(CW, CH)\<close> sets the edit
  hotspot to a pair of integers, each axis scaled by its own ratio and rounded to the
  nearest integer, the ratio and the product each being rounded to a double first. For
  sizes and offsets below \<open>2^32\<close>, each coordinate is within \<open>1 / 2 + doubleError\<close> of the exact
  product \<open>dx * NW / CW\<close> (or \<open>dy * NH / CH\<close>), and it is \<open>round (dx * NW / CW)\<close> whenever the
  exact product is farther than \<open>doubleError\<close> from every number halfway between two
  integers. On another tab the click changes nothing.
\<close>

theorem handleImageClick_hotspot:
  "(activeTab s = TabRetouch
      \<and> naturalWidth (currentTarget e) < 2 ^ 32 \<and> naturalHeight (currentTarget e) < 2 ^ 32
      \<and> 0 < clientWidth (currentTarget e) \<and> clientWidth (currentTarget e) < 2 ^ 32
      \<and> 0 < clientHeight (currentTarget e) \<and> clientHeight (currentTarget e) < 2 ^ 32
      \<and> jsMinus (clientX e) (rectLeft (currentTarget e)) = Fin dx \<and> \<bar>dx\<bar> \<le> 2 ^ 32
      \<and> jsMinus (clientY e) (rectTop (currentTarget e)) = Fin dy \<and> \<bar>dy\<bar> \<le> 2 ^ 32
    \<longrightarrow>
      (let exactX = dx * real (naturalWidth (currentTarget e)) / real (clientWidth (currentTarget e));
           exactY = dy * real (naturalHeight (currentTarget e)) / real (clientHeight (currentTarget e))
       in \<exists>hx hy.
            editHotspot (handleImageClick e s)
              = Some \<lparr>xCoord = Fin (of_int hx), yCoord = Fin (of_int hy)\<rparr>
            \<and> \<bar>of_int hx - exactX\<bar> \<le> 1 / 2 + doubleError exactX
            \<and> \<bar>of_int hy - exactY\<bar> \<le> 1 / 2 + doubleError exactY
            \<and> (doubleError exactX < halfDistance exactX \<longrightarrow> hx = round exactX)
            \<and> (doubleError exactY < halfDistance exactY \<longrightarrow> hy = round exactY)))
   \<and> (activeTab s \<noteq> TabRetouch \<longrightarrow> handleImageClick e s = s)"
proof (intro conjI impI)
  assume a: "activeTab s = TabRetouch
      \<and> naturalWidth (currentTarget e) < 2 ^ 32 \<and> naturalHeight (currentTarget e) < 2 ^ 32
      \<and> 0 < clientWidth (currentTarget e) \<and> clientWidth (currentTarget e) < 2 ^ 32
      \<and> 0 < clientHeight (currentTarget e) \<and> clientHeight (currentTarget e) < 2 ^ 32
      \<and> jsMinus (clientX e) (rectLeft (currentTarget e)) = Fin dx \<and> \<bar>dx\<bar> \<le> 2 ^ 32
      \<and> jsMinus (clientY e) (rectTop (currentTarget e)) = Fin dy \<and> \<bar>dy\<bar> \<le> 2 ^ 32"
  define img where "img = currentTarget e"
  define exactX where "exactX = dx * real (naturalWidth img) / real (clientWidth img)"
  define exactY where "exactY = dy * real (naturalHeight img) / real (clientHeight img)"
  from a have tab: "activeTab s = TabRetouch"
    and w: "naturalWidth img < 2 ^ 32" "0 < clientWidth img" "clientWidth img < 2 ^ 32"
    and h: "naturalHeight img < 2 ^ 32" "0 < clientHeight img" "clientHeight img < 2 ^ 32"
    and x: "jsMinus (clientX e) (rectLeft img) = Fin dx" "\<bar>dx\<bar> \<le> 2 ^ 32"
    and y: "jsMinus (clientY e) (rectTop img) = Fin dy" "\<bar>dy\<bar> \<le> 2 ^ 32"
    by (simp_all add: img_def)
  from scaleToNatural_axis [OF w x(2)] obtain hx where
    hx: "scaleToNatural (Fin dx) (naturalWidth img) (clientWidth img) = Fin (of_int hx)"
      "\<bar>of_int hx - exactX\<bar> \<le> 1 / 2 + doubleError exactX"
      "doubleError exactX < halfDistance exactX \<longrightarrow> hx = round exactX"
    unfolding exactX_def by blast
  from scaleToNatural_axis [OF h y(2)] obtain hy where
    hy: "scaleToNatural (Fin dy) (naturalHeight img) (clientHeight img) = Fin (of_int hy)"
      "\<bar>of_int hy - exactY\<bar> \<le> 1 / 2 + doubleError exactY"
      "doubleError exactY < halfDistance exactY \<longrightarrow> hy = round exactY"
    unfolding exactY_def by blast
  have click: "editHotspot (handleImageClick e s)
      = Some \<lparr>xCoord = Fin (of_int hx), yCoord = Fin (of_int hy)\<rparr>"
    using tab x(1) y(1) hx(1) hy(1) by (simp add: handleImageClick_def Let_def img_def)
  from click hx(2,3) hy(2,3)
  have "\<exists>hx hy.
            editHotspot (handleImageClick e s)
              = Some \<lparr>xCoord = Fin (of_int hx), yCoord = Fin (of_int hy)\<rparr>
            \<and> \<bar>of_int hx - exactX\<bar> \<le> 1 / 2 + doubleError exactX
            \<and> \<bar>of_int hy - exactY\<bar> \<le> 1 / 2 + doubleError exactY
            \<and> (doubleError exactX < halfDistance exactX \<longrightarrow> hx = round exactX)
            \<and> (doubleError exactY < halfDistance exactY \<longrightarrow> hy = round exactY)"
    by blast
  then show "let exactX = dx * real (naturalWidth (currentTarget e)) / real (clientWidth (currentTarget e));
           exactY = dy * real (naturalHeight (currentTarget e)) / real (clientHeight (currentTarget e))
       in \<exists>hx hy.
            editHotspot (handleImageClick e s)
              = Some \<lparr>xCoord = Fin (of_int hx), yCoord = Fin (of_int hy)\<rparr>
            \<and> \<bar>of_int hx - exactX\<bar> \<le> 1 / 2 + doubleError exactX
            \<and> \<bar>of_int hy - exactY\<bar> \<le> 1 / 2 + doubleError exactY
            \<and> (doubleError exactX < halfDistance exactX \<longrightarrow> hx = round exactX)
            \<and> (doubleError exactY < halfDistance exactY \<longrightarrow> hy = round exactY)"
    unfolding Let_def exactX_def exactY_def img_def .
next
  assume "activeTab s \<noteq> TabRetouch"
  then show "handleImageClick e s = s"
    by (simp add: handleImageClick_def)
qed

lemma doubleError_20_3: "doubleError (20 / 3) < halfDistance (20 / 3)"
  by (simp add: doubleError_def halfDistance_def power_int_def power_divide)

theorem handleImageClick_hotspot_witness:
  "(\<exists>hx hy.
      editHotspot (handleImageClick (clickAt 17 25) (stateAt [fileA] 0))
        = Some \<lparr>xCoord = Fin (of_int hx), yCoord = Fin (of_int hy)\<rparr>
      \<and> \<bar>of_int hx - 21 / 2\<bar> \<le> 1 / 2 + doubleError (21 / 2)
      \<and> \<bar>of_int hy - 20 / 3\<bar> \<le> 1 / 2 + doubleError (20 / 3)
      \<and> hy = round (20 / 3 :: real))
   \<and> handleImageClick (clickAt 17 25) zeroHeightSelection = zeroHeightSelection"
proof -
  have t: "activeTab (stateAt [fileA] 0) = TabRetouch"
    by (simp add: stateAt_def initialState_def)
  have x: "jsMinus (clientX (clickAt 17 25)) (rectLeft (currentTarget (clickAt 17 25))) = Fin 7"
    and y: "jsMinus (clientY (clickAt 17 25)) (rectTop (currentTarget (clickAt 17 25))) = Fin 5"
    by (simp_all add: clickAt_def photo_def jsMinus_def toDouble_7 toDouble_5)
  have c: "activeTab zeroHeightSelection \<noteq> TabRetouch"
    by (simp add: zeroHeightSelection_def)
  from handleImageClick_hotspot [of "stateAt [fileA] 0" "clickAt 17 25" 7 5] t x y
    doubleError_20_3
    handleImageClick_hotspot [of zeroHeightSelection "clickAt 17 25" 7 5] c
  show ?thesis
    by (simp add: clickAt_def photo_def Let_def) blast
qed

text \<open>
  The claim as stated fails. On an image 1300 pixels wide displayed at a width of 600, a
  click at the offset 27 gives the coordinate 58: the quotient rounds to
  \<open>2.1666666666666665\<close> and the product to \<open>58.49999999999999\<close>, while
  \<open>round (27 * 1300 / 600) = round 58.5 = 59\<close>.
\<close>

theorem exact_hotspot_counterexample:
  "editHotspot (handleImageClick \<lparr>clientX = 27, clientY = 0, currentTarget = widePhoto\<rparr>
       (stateAt [fileA] 0))
     = Some \<lparr>xCoord = Fin 58, yCoord = Fin 0\<rparr>
   \<and> round ((27 - rectLeft widePhoto) * real (naturalWidth widePhoto)
        / real (clientWidth widePhoto)) = 59"
  by (simp add: handleImageClick_def widePhoto_def stateAt_def initialState_def
      jsMinus_def toDouble_27 toDouble_0 scale_27 scale_0 Let_def round_def)

section \<open>No generation without a key\<close>

lemma keysHeld_irrelevant:
  "keysHeld (s\<lparr>isLoading := b\<rparr>) = keysHeld s"
  "keysHeld (s\<lparr>error := e\<rparr>) = keysHeld s"
  "keysHeld (s\<lparr>editHotspot := hs\<rparr>) = keysHeld s"
  "keysHeld (s\<lparr>displayHotspot := hs\<rparr>) = keysHeld s"
  "keysHeld (s\<lparr>pendingAction := pa\<rparr>) = keysHeld s"
  "keysHeld (s\<lparr>isApiKeyModalOpen := b\<rparr>) = keysHeld s"
  "keysHeld (s\<lparr>history := h\<rparr>) = keysHeld s"
  "keysHeld (s\<lparr>historyIndex := i\<rparr>) = keysHeld s"
  "keysHeld (s\<lparr>activeTab := t\<rparr>) = keysHeld s"
  "keysHeld (s\<lparr>crop := c\<rparr>) = keysHeld s"
  "keysHeld (s\<lparr>completedCrop := c\<rparr>) = keysHeld s"
  "keysHeld (s\<lparr>prompt := p\<rparr>) = keysHeld s"
  "keysHeld (s\<lparr>apiKey := k\<rparr>) = keysHeld s"
  "keysHeld (s\<lparr>sessionStorage := ss\<rparr>) = keysHeld s"
  "keysHeld (s\<lparr>localStorage := ls\<rparr>) = keysHeld s"
  "keysHeld (s\<lparr>aspect := a\<rparr>) = keysHeld s"
  "keysHeld (s\<lparr>isComparing := b\<rparr>) = keysHeld s"
  "keysHeld (s\<lparr>imgRef := r\<rparr>) = keysHeld s"
  "keysHeld (s\<lparr>inFlight := fl\<rparr>) = keysHeld s"
  "keysHeld (s\<lparr>faces := fs\<rparr>) = keysHeld s"
  "keysHeld (s\<lparr>readers := rs\<rparr>) = keysHeld s"
  "keysHeld (s\<lparr>librarySelectedFace := sf\<rparr>) = keysHeld s"
  "keysHeld (s\<lparr>startSelectedFace := sf\<rparr>) = keysHeld s"
  "keysHeld (s\<lparr>libraryInstance := li\<rparr>) = keysHeld s"
  by (simp_all add: keysHeld_def)

lemma keysHeld_addImageToHistory: "keysHeld (addImageToHistory h i f s) = keysHeld s"
  by (simp add: addImageToHistory_def Let_def keysHeld_irrelevant)

lemma keysHeld_failWith: "keysHeld (failWith prefix err s) = keysHeld s"
  by (simp add: failWith_def keysHeld_irrelevant)

lemma keysHeld_await:
  "callKey call \<noteq> [] \<Longrightarrow> keysHeld s \<Longrightarrow> keysHeld (await call action s)"
  by (simp add: await_def keysHeld_def)

lemma keysHeld_startAction:
  "key \<noteq> [] \<Longrightarrow> keysHeld s \<Longrightarrow> keysHeld (startAction env a key s)"
  by (cases a)
     (auto simp: Let_def keysHeld_failWith keysHeld_await keysHeld_irrelevant
        split: sum.splits)

lemma keysHeld_onResolved: "keysHeld (onResolved a f s) = keysHeld s"
  by (cases a) (simp_all add: keysHeld_irrelevant keysHeld_addImageToHistory)

lemma keysHeld_continueAction: "keysHeld (continueAction env a outcome s) = keysHeld s"
  by (simp add: continueAction_def keysHeld_failWith keysHeld_irrelevant keysHeld_onResolved
      split: sum.splits)

lemma keysHeld_serviceSettles: "keysHeld (serviceSettles env n s) = keysHeld s"
  by (simp add: serviceSettles_def keysHeld_continueAction keysHeld_irrelevant
      split: prod.splits)

lemma keysHeld_withApiKey: "keysHeld s \<Longrightarrow> keysHeld (withApiKey env a s)"
  by (auto simp: withApiKey_cases deferAction_def noCredential_def keysHeld_irrelevant
      intro!: keysHeld_startAction split: option.splits)

lemma keysHeld_timerFires: "keysHeld s \<Longrightarrow> keysHeld (timerFires env s)"
proof (cases "timers s")
  case Nil
  assume "keysHeld s"
  then show ?thesis
    using Nil by (simp add: timerFires_def)
next
  case (Cons t rest)
  assume k: "keysHeld s"
  obtain action key where t: "t = (action, key)"
    by (cases t)
  from k Cons t have "key \<noteq> []" and "keysHeld (s\<lparr>timers := rest\<rparr>)"
    by (simp_all add: keysHeld_def)
  then have "keysHeld (startAction env action key (s\<lparr>timers := rest\<rparr>))"
    by (rule keysHeld_startAction)
  then show ?thesis
    using Cons t by (simp add: timerFires_def keysHeld_irrelevant)
qed

lemma keysHeld_handleApiKeySubmit: "keysHeld s \<Longrightarrow> keysHeld (handleApiKeySubmit k s)"
  by (auto simp: handleApiKeySubmit_def Let_def keysHeld_def split: option.splits)

lemma keysHeld_saveFacesToStorage: "keysHeld (saveFacesToStorage env fs s) = keysHeld s"
  by (simp add: saveFacesToStorage_def keysHeld_irrelevant)

lemma keysHeld_faceLibrary:
  "keysHeld (faceLibraryMounts env s) = keysHeld s"
  "keysHeld (handleFileAdd files s) = keysHeld s"
  "keysHeld (readerLoads env n newFace s) = keysHeld s"
  "keysHeld (handleSelectFace face s) = keysHeld s"
  "keysHeld (handleDeleteFace env face s) = keysHeld s"
proof -
  show "keysHeld (faceLibraryMounts env s) = keysHeld s"
    by (simp add: faceLibraryMounts_def Let_def keysHeld_irrelevant
        split: option.splits sum.splits)
  show "keysHeld (handleFileAdd files s) = keysHeld s"
    by (cases "(files, s)" rule: handleFileAdd.cases) (simp_all add: keysHeld_irrelevant)
  show "keysHeld (readerLoads env n newFace s) = keysHeld s"
    by (simp add: readerLoads_def Let_def keysHeld_irrelevant keysHeld_saveFacesToStorage
        split: prod.splits)
  show "keysHeld (handleSelectFace face s) = keysHeld s"
    by (simp add: handleSelectFace_def Let_def keysHeld_irrelevant)
  show "keysHeld (handleDeleteFace env face s) = keysHeld s"
    by (simp add: handleDeleteFace_def Let_def keysHeld_irrelevant keysHeld_saveFacesToStorage)
qed

lemma keysHeld_step: "keysHeld s \<Longrightarrow> keysHeld (step env ev s)"
proof (cases ev)
  case (FileSelect files)
  assume "keysHeld s"
  then show ?thesis
    unfolding FileSelect
    by (cases "(files, s)" rule: handleFileSelect.cases)
       (auto simp: handleImageUpload_def keysHeld_irrelevant)
next
  case ApplyCrop
  assume "keysHeld s"
  then show ?thesis
    unfolding ApplyCrop
    by (auto simp: handleApplyCrop_def Let_def keysHeld_irrelevant
          keysHeld_addImageToHistory split: sum.splits option.splits if_splits)
qed (auto simp: handleCreateMemory_def handleGenerate_def handleApplyFilter_def
       handleApplyAdjustment_def keysHeld_withApiKey keysHeld_irrelevant keysHeld_timerFires
       keysHeld_handleApiKeySubmit keysHeld_serviceSettles keysHeld_faceLibrary
       handleUndo_def handleRedo_def handleReset_def handleUploadNew_def
       handleImageClick_def Let_def handleApiKeyClose_def
       split: option.splits)

lemma keysHeld_run: "keysHeld s \<Longrightarrow> keysHeld (run s evs)"
  by (induction s evs rule: run.induct) (auto simp: keysHeld_step)

lemma keysHeld_initialState: "keysHeld (initialState session local)"
  by (simp add: keysHeld_def initialState_def)

text \<open>
  The handlers of \<open>App\<close> write to session storage under one name, and never to local
  storage; the face library writes to local storage under one name.
\<close>

lemma storage_startAction:
  "localStorage (startAction env a key s) = localStorage s"
  "sessionStorage (startAction env a key s) = sessionStorage s"
  by (cases a; simp add: Let_def failWith_def await_def split: sum.splits)+

lemma storage_onResolved:
  "localStorage (onResolved a f s) = localStorage s"
  "sessionStorage (onResolved a f s) = sessionStorage s"
  by (cases a; simp add: addImageToHistory_def Let_def)+

lemma storage_continueAction:
  "localStorage (continueAction env a outcome s) = localStorage s"
  "sessionStorage (continueAction env a outcome s) = sessionStorage s"
  by (simp_all add: continueAction_def failWith_def storage_onResolved split: sum.splits)

lemma storage_serviceSettles:
  "localStorage (serviceSettles env n s) = localStorage s"
  "sessionStorage (serviceSettles env n s) = sessionStorage s"
  by (simp_all add: serviceSettles_def storage_continueAction split: prod.splits)

lemma storage_withApiKey:
  "localStorage (withApiKey env a s) = localStorage s"
  "sessionStorage (withApiKey env a s) = sessionStorage s"
  by (simp_all add: withApiKey_cases deferAction_def storage_startAction)

lemma storage_timerFires:
  "localStorage (timerFires env s) = localStorage s"
  "sessionStorage (timerFires env s) = sessionStorage s"
  by (simp_all add: timerFires_def storage_startAction split: list.splits)

lemma localStorage_saveFacesToStorage:
  "name \<noteq> ''dad-memory-faces'' \<Longrightarrow>
   localStorage (saveFacesToStorage env fs s) name = localStorage s name"
  by (simp add: saveFacesToStorage_def)

lemma sessionStorage_saveFacesToStorage:
  "sessionStorage (saveFacesToStorage env fs s) = sessionStorage s"
  by (simp add: saveFacesToStorage_def)

lemma localStorage_step:
  "\<not> savesFaces ev \<Longrightarrow> localStorage (step env ev s) = localStorage s"
proof (cases ev)
  case (FileSelect files)
  show ?thesis
    unfolding FileSelect
    by (cases "(files, s)" rule: handleFileSelect.cases) (auto simp: handleImageUpload_def)
next
  case ApplyCrop
  show ?thesis
    unfolding ApplyCrop
    by (auto simp: handleApplyCrop_def Let_def addImageToHistory_def
          split: sum.splits option.splits if_splits)
next
  case (FaceFileAdd files)
  show ?thesis
    unfolding FaceFileAdd
    by (cases "(files, s)" rule: handleFileAdd.cases) auto
next
  case FaceLibraryMounts
  show ?thesis
    unfolding FaceLibraryMounts
    by (simp add: faceLibraryMounts_def Let_def split: option.splits sum.splits)
qed (auto simp: handleCreateMemory_def handleGenerate_def handleApplyFilter_def
       handleApplyAdjustment_def storage_withApiKey storage_timerFires storage_serviceSettles
       handleApiKeySubmit_def handleSelectFace_def
       handleUndo_def handleRedo_def handleReset_def handleUploadNew_def
       handleImageClick_def Let_def handleApiKeyClose_def
       split: option.splits)

lemma localStorage_step_name:
  "name \<noteq> ''dad-memory-faces'' \<Longrightarrow> localStorage (step env ev s) name = localStorage s name"
proof (cases "savesFaces ev")
  case False
  then show ?thesis
    by (simp add: localStorage_step)
next
  case True
  assume n: "name \<noteq> ''dad-memory-faces''"
  from True show ?thesis
    by (cases ev)
       (simp_all add: readerLoads_def handleDeleteFace_def Let_def
          localStorage_saveFacesToStorage [OF n] split: prod.splits)
qed

lemma sessionStorage_step:
  "name \<noteq> ''user-api-key'' \<Longrightarrow> sessionStorage (step env ev s) name = sessionStorage s name"
proof (cases ev)
  case (FileSelect files)
  show ?thesis
    unfolding FileSelect
    by (cases "(files, s)" rule: handleFileSelect.cases) (auto simp: handleImageUpload_def)
next
  case ApplyCrop
  show ?thesis
    unfolding ApplyCrop
    by (auto simp: handleApplyCrop_def Let_def addImageToHistory_def
          split: sum.splits option.splits if_splits)
next
  case (ApiKeySubmit k)
  assume "name \<noteq> ''user-api-key''"
  then show ?thesis
    unfolding ApiKeySubmit
    by (auto simp: handleApiKeySubmit_def Let_def split: option.splits)
next
  case (FaceFileAdd files)
  show ?thesis
    unfolding FaceFileAdd
    by (cases "(files, s)" rule: handleFileAdd.cases) auto
next
  case FaceLibraryMounts
  show ?thesis
    unfolding FaceLibraryMounts
    by (simp add: faceLibraryMounts_def Let_def split: option.splits sum.splits)
next
  case (ReaderLoads n newFace)
  show ?thesis
    unfolding ReaderLoads
    by (simp add: readerLoads_def Let_def sessionStorage_saveFacesToStorage split: prod.splits)
next
  case (DeleteFace face)
  show ?thesis
    unfolding DeleteFace
    by (simp add: handleDeleteFace_def Let_def sessionStorage_saveFacesToStorage)
qed (auto simp: handleCreateMemory_def handleGenerate_def handleApplyFilter_def
       handleApplyAdjustment_def storage_withApiKey storage_timerFires storage_serviceSettles
       handleSelectFace_def
       handleUndo_def handleRedo_def handleReset_def handleUploadNew_def
       handleImageClick_def Let_def handleApiKeyClose_def
       split: option.splits)

lemma localStorage_run:
  "name \<noteq> ''dad-memory-faces'' \<Longrightarrow> localStorage (run s evs) name = localStorage s name"
  by (induction s evs rule: run.induct) (auto simp: localStorage_step_name)

lemma sessionStorage_run:
  "name \<noteq> ''user-api-key'' \<Longrightarrow> sessionStorage (run s evs) name = sessionStorage s name"
  by (induction s evs rule: run.induct) (auto simp: sessionStorage_step)

lemma serviceCalls_withApiKey_noCredential:
  "noCredential s \<Longrightarrow> serviceCalls (withApiKey env a s) = serviceCalls s"
  by (simp add: withApiKey_cases deferAction_def)

lemma serviceCalls_onResolved: "serviceCalls (onResolved a f s) = serviceCalls s"
  by (cases a; simp add: addImageToHistory_def Let_def)

lemma serviceCalls_serviceSettles: "serviceCalls (serviceSettles env n s) = serviceCalls s"
  by (simp add: serviceSettles_def continueAction_def failWith_def serviceCalls_onResolved
      split: prod.splits sum.splits)

lemma serviceCalls_saveFacesToStorage:
  "serviceCalls (saveFacesToStorage env fs s) = serviceCalls s"
  by (simp add: saveFacesToStorage_def)

lemma serviceCalls_startAction:
  "serviceCalls (startAction env a key s) = serviceCalls s
   \<or> (\<exists>call. serviceCalls (startAction env a key s) = serviceCalls s @ [call]
         \<and> callKey call = key)"
  by (cases a; simp add: Let_def failWith_def await_def split: sum.splits)

lemma serviceCalls_step_noCredential:
  "noCredential s \<Longrightarrow> ev \<noteq> TimerFires \<Longrightarrow> serviceCalls (step env ev s) = serviceCalls s"
proof (cases ev)
  case (FileSelect files)
  show ?thesis
    unfolding FileSelect
    by (cases "(files, s)" rule: handleFileSelect.cases) (auto simp: handleImageUpload_def)
next
  case ApplyCrop
  show ?thesis
    unfolding ApplyCrop
    by (auto simp: handleApplyCrop_def Let_def addImageToHistory_def
          split: sum.splits option.splits if_splits)
next
  case (FaceFileAdd files)
  show ?thesis
    unfolding FaceFileAdd
    by (cases "(files, s)" rule: handleFileAdd.cases) auto
next
  case FaceLibraryMounts
  show ?thesis
    unfolding FaceLibraryMounts
    by (simp add: faceLibraryMounts_def Let_def split: option.splits sum.splits)
next
  case (ReaderLoads n newFace)
  show ?thesis
    unfolding ReaderLoads
    by (simp add: readerLoads_def Let_def serviceCalls_saveFacesToStorage split: prod.splits)
next
  case (DeleteFace face)
  show ?thesis
    unfolding DeleteFace
    by (simp add: handleDeleteFace_def Let_def serviceCalls_saveFacesToStorage)
qed (auto simp: handleCreateMemory_def handleGenerate_def handleApplyFilter_def
       handleApplyAdjustment_def serviceCalls_withApiKey_noCredential
       serviceCalls_serviceSettles handleApiKeySubmit_def handleSelectFace_def
       handleUndo_def handleRedo_def handleReset_def handleUploadNew_def
       handleImageClick_def Let_def handleApiKeyClose_def
       split: option.splits)

text \<open>
  Claim C6. In every run from the first render, each call of the generation service and
  each scheduled action carries a key that is not empty. Local storage changes under
  \<open>dad-memory-faces\<close> only, and only in the two events in which the face library saves
  its faces; session storage changes under \<open>user-api-key\<close> only. In a state without a key
  no event but a firing timer calls the service, and each of the four generation handlers
  (past its own checks) keeps its action as pending and opens the key modal, calling
  nothing. Submitting a key that is empty after trimming changes nothing; submitting
  another one stores the trimmed key in the state and in session storage, leaves local
  storage as it was, and schedules the pending action with that key. A firing timer starts
  the scheduled action with its key; a started action calls the service at most once, with
  the key it was given, and the answer of the service calls it no more.
\<close>

theorem generation_requires_credential:
  "keysHeld (run (initialState session local) evs)
   \<and> (\<forall>name. name \<noteq> ''dad-memory-faces'' \<longrightarrow>
         localStorage (run (initialState session local) evs) name = local name)
   \<and> (\<forall>name. name \<noteq> ''user-api-key'' \<longrightarrow>
         sessionStorage (run (initialState session local) evs) name = session name)
   \<and> (\<forall>ev. \<not> savesFaces ev \<longrightarrow> localStorage (step env ev s) = localStorage s)
   \<and> (noCredential s \<longrightarrow>
         (\<forall>ev. ev \<noteq> TimerFires \<longrightarrow> serviceCalls (step env ev s) = serviceCalls s)
         \<and> handleCreateMemory env faceDataUrl p s
             = deferAction (CreateMemoryAction faceDataUrl p) s
         \<and> (\<forall>currentFile hotspot.
               currentImage s = Some currentFile \<and> trim (prompt s) \<noteq> []
               \<and> editHotspot s = Some hotspot \<longrightarrow>
               handleGenerate env s
                 = deferAction (GenerateAction currentFile (prompt s) hotspot (history s)
                     (historyIndex s)) s)
         \<and> (\<forall>currentFile. currentImage s = Some currentFile \<longrightarrow>
               handleApplyFilter env filterPrompt s
                 = deferAction (FilterAction currentFile filterPrompt (history s)
                     (historyIndex s)) s
               \<and> handleApplyAdjustment env adjustmentPrompt s
                 = deferAction (AdjustmentAction currentFile adjustmentPrompt (history s)
                     (historyIndex s)) s))
   \<and> pendingAction (deferAction action s) = Some action
   \<and> isApiKeyModalOpen (deferAction action s)
   \<and> serviceCalls (deferAction action s) = serviceCalls s
   \<and> (trim newApiKey = [] \<longrightarrow> handleApiKeySubmit newApiKey s = s)
   \<and> (trim newApiKey \<noteq> [] \<longrightarrow>
         apiKey (handleApiKeySubmit newApiKey s) = Some (trim newApiKey)
         \<and> sessionStorage (handleApiKeySubmit newApiKey s)
             = (sessionStorage s)(''user-api-key'' \<mapsto> trim newApiKey)
         \<and> localStorage (handleApiKeySubmit newApiKey s) = localStorage s
         \<and> serviceCalls (handleApiKeySubmit newApiKey s) = serviceCalls s
         \<and> timers (handleApiKeySubmit newApiKey s)
             = timers s @ (case pendingAction s of None \<Rightarrow> []
                           | Some action \<Rightarrow> [(action, trim newApiKey)]))
   \<and> (\<forall>action key rest. timers s = (action, key) # rest \<longrightarrow>
         timerFires env s
           = (startAction env action key (s\<lparr>timers := rest\<rparr>))\<lparr>pendingAction := None\<rparr>)
   \<and> (serviceCalls (startAction env action key s) = serviceCalls s
        \<or> (\<exists>call. serviceCalls (startAction env action key s) = serviceCalls s @ [call]
              \<and> callKey call = key))
   \<and> serviceCalls (serviceSettles env n s) = serviceCalls s"
proof (intro conjI)
  show "keysHeld (run (initialState session local) evs)"
    by (rule keysHeld_run [OF keysHeld_initialState])
  show "\<forall>name. name \<noteq> ''dad-memory-faces'' \<longrightarrow>
      localStorage (run (initialState session local) evs) name = local name"
    by (simp add: localStorage_run initialState_def)
  show "\<forall>name. name \<noteq> ''user-api-key'' \<longrightarrow>
      sessionStorage (run (initialState session local) evs) name = session name"
    by (simp add: sessionStorage_run initialState_def)
  show "\<forall>ev. \<not> savesFaces ev \<longrightarrow> localStorage (step env ev s) = localStorage s"
    by (simp add: localStorage_step)
  show "noCredential s \<longrightarrow>
         (\<forall>ev. ev \<noteq> TimerFires \<longrightarrow> serviceCalls (step env ev s) = serviceCalls s)
         \<and> handleCreateMemory env faceDataUrl p s
             = deferAction (CreateMemoryAction faceDataUrl p) s
         \<and> (\<forall>currentFile hotspot.
               currentImage s = Some currentFile \<and> trim (prompt s) \<noteq> []
               \<and> editHotspot s = Some hotspot \<longrightarrow>
               handleGenerate env s
                 = deferAction (GenerateAction currentFile (prompt s) hotspot (history s)
                     (historyIndex s)) s)
         \<and> (\<forall>currentFile. currentImage s = Some currentFile \<longrightarrow>
               handleApplyFilter env filterPrompt s
                 = deferAction (FilterAction currentFile filterPrompt (history s)
                     (historyIndex s)) s
               \<and> handleApplyAdjustment env adjustmentPrompt s
                 = deferAction (AdjustmentAction currentFile adjustmentPrompt (history s)
                     (historyIndex s)) s)"
    by (simp add: serviceCalls_step_noCredential handleCreateMemory_def handleGenerate_def
        handleApplyFilter_def handleApplyAdjustment_def withApiKey_cases)
  show "pendingAction (deferAction action s) = Some action"
    by (simp add: deferAction_def)
  show "isApiKeyModalOpen (deferAction action s)"
    by (simp add: deferAction_def)
  show "serviceCalls (deferAction action s) = serviceCalls s"
    by (simp add: deferAction_def)
  show "trim newApiKey = [] \<longrightarrow> handleApiKeySubmit newApiKey s = s"
    by (simp add: handleApiKeySubmit_def)
  show "trim newApiKey \<noteq> [] \<longrightarrow>
         apiKey (handleApiKeySubmit newApiKey s) = Some (trim newApiKey)
         \<and> sessionStorage (handleApiKeySubmit newApiKey s)
             = (sessionStorage s)(''user-api-key'' \<mapsto> trim newApiKey)
         \<and> localStorage (handleApiKeySubmit newApiKey s) = localStorage s
         \<and> serviceCalls (handleApiKeySubmit newApiKey s) = serviceCalls s
         \<and> timers (handleApiKeySubmit newApiKey s)
             = timers s @ (case pendingAction s of None \<Rightarrow> []
                           | Some action \<Rightarrow> [(action, trim newApiKey)])"
    by (simp add: handleApiKeySubmit_def Let_def split: option.splits)
  show "\<forall>action key rest. timers s = (action, key) # rest \<longrightarrow>
         timerFires env s
           = (startAction env action key (s\<lparr>timers := rest\<rparr>))\<lparr>pendingAction := None\<rparr>"
    by (simp add: timerFires_def)
  show "serviceCalls (startAction env action key s) = serviceCalls s
        \<or> (\<exists>call. serviceCalls (startAction env action key s) = serviceCalls s @ [call]
              \<and> callKey call = key)"
    by (rule serviceCalls_startAction)
  show "serviceCalls (serviceSettles env n s) = serviceCalls s"
    by (rule serviceCalls_serviceSettles)
qed

lemma trim_example: "trim '' k1 '' = ''k1''" "trim ''  '' = []"
  by (simp_all add: trim_def isWhiteSpace_def)

lemma editSession_calls:
  "serviceCalls (run (initialState Map.empty Map.empty) editSession)
     = [generateEditedImage ''k1'' fileA ''make it blue'' \<lparr>xCoord = Fin 11, yCoord = Fin 7\<rparr>]"
  by (simp add: editSession_def click_example run_eval)

theorem generation_requires_credential_witness:
  "noCredential readyToGenerate
   \<and> keysHeld (run (initialState Map.empty Map.empty) editSession)
   \<and> serviceCalls (run (initialState Map.empty Map.empty) editSession)
       = [generateEditedImage ''k1'' fileA ''make it blue'' \<lparr>xCoord = Fin 11, yCoord = Fin 7\<rparr>]
   \<and> localStorage (run (initialState Map.empty Map.empty) editSession) ''user-api-key'' = None
   \<and> sessionStorage (run (initialState Map.empty Map.empty) editSession) ''dad-memory-faces''
       = None
   \<and> localStorage (step browserEnv (ApiKeySubmit '' k1 '') readyToGenerate) = Map.empty
   \<and> serviceCalls (step browserEnv Generate readyToGenerate) = []
   \<and> handleGenerate browserEnv readyToGenerate
       = deferAction (GenerateAction fileA ''make it blue'' \<lparr>xCoord = Fin 11, yCoord = Fin 7\<rparr>
           [fileA] 0) readyToGenerate
   \<and> handleApiKeySubmit ''  '' readyToGenerate = readyToGenerate
   \<and> sessionStorage (handleApiKeySubmit '' k1 '' readyToGenerate) ''user-api-key'' = Some ''k1''
   \<and> timers (handleApiKeySubmit '' k1 ''
        (deferAction (CreateMemoryAction ''data:image/jpeg;base64,RkFDRQ=='' ''a walk'')
           readyToGenerate))
       = [(CreateMemoryAction ''data:image/jpeg;base64,RkFDRQ=='' ''a walk'', ''k1'')]
   \<and> serviceCalls (timerFires browserEnv
        (readyToGenerate\<lparr>timers := [(FilterAction fileA ''warm'' [fileA] 0, ''k1'')]\<rparr>))
       = [generateFilteredImage ''k1'' fileA ''warm'']"
proof -
  have nc: "noCredential readyToGenerate"
    by (simp add: noCredential_def readyToGenerate_def stateAt_def initialState_def)
  have cur: "currentImage readyToGenerate = Some fileA"
    and pr: "prompt readyToGenerate = ''make it blue''"
    and hs: "editHotspot readyToGenerate = Some \<lparr>xCoord = Fin 11, yCoord = Fin 7\<rparr>"
    and h: "history readyToGenerate = [fileA]" "historyIndex readyToGenerate = 0"
      "serviceCalls readyToGenerate = []" "timers readyToGenerate = []"
      "pendingAction readyToGenerate = None" "localStorage readyToGenerate = Map.empty"
    by (simp_all add: readyToGenerate_def stateAt_def initialState_def currentImage_def
        elementAt_def)
  have tr: "trim ''make it blue'' \<noteq> []"
    by (simp add: trim_def isWhiteSpace_def)
  note calls = editSession_calls
  note thm1 = generation_requires_credential
    [of "Map.empty" "Map.empty" editSession browserEnv readyToGenerate
        "''data:image/jpeg;base64,RkFDRQ==''" "''a walk''" "''warm''" "''brighter''"
        "CreateMemoryAction ''data:image/jpeg;base64,RkFDRQ=='' ''a walk''" "''  ''"]
  note thm2 = generation_requires_credential
    [of "Map.empty" "Map.empty" editSession browserEnv readyToGenerate
        "''data:image/jpeg;base64,RkFDRQ==''" "''a walk''" "''warm''" "''brighter''"
        "CreateMemoryAction ''data:image/jpeg;base64,RkFDRQ=='' ''a walk''" "'' k1 ''"]
  note thm3 = generation_requires_credential
    [of "Map.empty" "Map.empty" editSession browserEnv
        "deferAction (CreateMemoryAction ''data:image/jpeg;base64,RkFDRQ=='' ''a walk'')
           readyToGenerate"
        "''data:image/jpeg;base64,RkFDRQ==''" "''a walk''" "''warm''" "''brighter''"
        "CreateMemoryAction ''data:image/jpeg;base64,RkFDRQ=='' ''a walk''" "'' k1 ''"]
  have a: "keysHeld (run (initialState Map.empty Map.empty) editSession)"
    using thm1 by simp
  from thm1 have "\<forall>name. name \<noteq> ''dad-memory-faces'' \<longrightarrow>
      localStorage (run (initialState Map.empty Map.empty) editSession) name = Map.empty name"
    by blast
  from spec [OF this, of "''user-api-key''"]
  have b: "localStorage (run (initialState Map.empty Map.empty) editSession) ''user-api-key''
      = None"
    by simp
  from thm1 have "\<forall>name. name \<noteq> ''user-api-key'' \<longrightarrow>
      sessionStorage (run (initialState Map.empty Map.empty) editSession) name = Map.empty name"
    by blast
  from spec [OF this, of "''dad-memory-faces''"]
  have b2: "sessionStorage (run (initialState Map.empty Map.empty) editSession)
      ''dad-memory-faces'' = None"
    by simp
  from thm1 have "\<forall>ev. \<not> savesFaces ev \<longrightarrow>
      localStorage (step browserEnv ev readyToGenerate) = localStorage readyToGenerate"
    by blast
  from spec [OF this, of "ApiKeySubmit '' k1 ''"]
  have b3: "localStorage (step browserEnv (ApiKeySubmit '' k1 '') readyToGenerate) = Map.empty"
    using h by simp
  from thm1 nc have quiet: "\<forall>ev. ev \<noteq> TimerFires \<longrightarrow>
      serviceCalls (step browserEnv ev readyToGenerate) = serviceCalls readyToGenerate"
    by blast
  have c: "serviceCalls (step browserEnv Generate readyToGenerate) = []"
    using spec [OF quiet, of Generate] h by simp
  from thm1 nc have gen: "\<forall>currentFile hotspot.
      currentImage readyToGenerate = Some currentFile \<and> trim (prompt readyToGenerate) \<noteq> []
      \<and> editHotspot readyToGenerate = Some hotspot \<longrightarrow>
      handleGenerate browserEnv readyToGenerate
        = deferAction (GenerateAction currentFile (prompt readyToGenerate) hotspot
            (history readyToGenerate) (historyIndex readyToGenerate)) readyToGenerate"
    by blast
  have d: "handleGenerate browserEnv readyToGenerate
       = deferAction (GenerateAction fileA ''make it blue'' \<lparr>xCoord = Fin 11, yCoord = Fin 7\<rparr>
           [fileA] 0) readyToGenerate"
    using spec [OF spec [OF gen, of fileA], of "\<lparr>xCoord = Fin 11, yCoord = Fin 7\<rparr>"]
      cur pr hs h tr by simp
  have e: "handleApiKeySubmit ''  '' readyToGenerate = readyToGenerate"
    using thm1 by (simp add: trim_example)
  have f: "sessionStorage (handleApiKeySubmit '' k1 '' readyToGenerate) ''user-api-key''
      = Some ''k1''"
    using thm2 by (simp add: trim_example)
  have g: "timers (handleApiKeySubmit '' k1 ''
        (deferAction (CreateMemoryAction ''data:image/jpeg;base64,RkFDRQ=='' ''a walk'')
           readyToGenerate))
       = [(CreateMemoryAction ''data:image/jpeg;base64,RkFDRQ=='' ''a walk'', ''k1'')]"
    using thm3 h by (simp add: trim_example deferAction_def)
  note thm4 = generation_requires_credential
    [of "Map.empty" "Map.empty" editSession browserEnv
        "readyToGenerate\<lparr>timers := [(FilterAction fileA ''warm'' [fileA] 0, ''k1'')]\<rparr>"
        "''data:image/jpeg;base64,RkFDRQ==''" "''a walk''" "''warm''" "''brighter''"
        "CreateMemoryAction ''data:image/jpeg;base64,RkFDRQ=='' ''a walk''" "'' k1 ''"]
  from thm4 have fires: "\<forall>action key rest.
      timers (readyToGenerate\<lparr>timers := [(FilterAction fileA ''warm'' [fileA] 0, ''k1'')]\<rparr>)
        = (action, key) # rest \<longrightarrow>
      timerFires browserEnv
        (readyToGenerate\<lparr>timers := [(FilterAction fileA ''warm'' [fileA] 0, ''k1'')]\<rparr>)
      = (startAction browserEnv action key
          (readyToGenerate\<lparr>timers := [(FilterAction fileA ''warm'' [fileA] 0, ''k1'')]\<rparr>
             \<lparr>timers := rest\<rparr>))\<lparr>pendingAction := None\<rparr>"
    by blast
  have i: "serviceCalls (timerFires browserEnv
        (readyToGenerate\<lparr>timers := [(FilterAction fileA ''warm'' [fileA] 0, ''k1'')]\<rparr>))
       = [generateFilteredImage ''k1'' fileA ''warm'']"
    using spec [OF spec [OF spec [OF fires, of "FilterAction fileA ''warm'' [fileA] 0"], of "''k1''"],
        of "[]"] h
    by (simp add: await_def)
  from nc a calls b b2 b3 c d e f g i show ?thesis
    by blast
qed

text \<open>The face library does write to local storage, under its own name.\<close>

lemma face_library_saves_faces:
  "localStorage
     (run (initialState Map.empty Map.empty)
        [(browserEnv, FaceLibraryMounts), (browserEnv, FaceFileAdd (Some [fileA])),
         (browserEnv, ReaderLoads 0 ''data:image/png;base64,RkFDRQ=='')])
     ''dad-memory-faces''
   = Some ''data:image/png;base64,RkFDRQ==,''"
  by (simp add: initialState_def faceLibraryMounts_def readerLoads_def saveFacesToStorage_def
      browserEnv_def Let_def)

section \<open>Malformed data URLs\<close>

lemma split_comma_not_Nil: "split_comma s \<noteq> []"
  by (induction s) (auto split: list.splits)

lemma split_comma_no_comma: "CHR '','' \<notin> set s \<Longrightarrow> split_comma s = [s]"
  by (induction s) auto

lemma split_comma_length: "length (split_comma s) = Suc (length (filter (\<lambda>c. c = CHR '','') s))"
  by (induction s) (auto split: list.splits)

lemma split_comma_comma: "CHR '','' \<in> set s \<Longrightarrow> 2 \<le> length (split_comma s)"
proof -
  assume "CHR '','' \<in> set s"
  then have "filter (\<lambda>c. c = CHR '','') s \<noteq> []"
    by (simp add: filter_empty_conv)
  then have "0 < length (filter (\<lambda>c. c = CHR '','') s)"
    by (rule iffD2 [OF length_greater_0_conv])
  then show ?thesis
    unfolding split_comma_length by linarith
qed

lemma split_comma_head: "split_comma s ! 0 = takeWhile (\<lambda>c. c \<noteq> CHR '','') s"
  by (induction s) (auto split: list.splits simp: split_comma_not_Nil)

lemma mimeMatch_no_colon: "CHR '':'' \<notin> set s \<Longrightarrow> mimeMatch s = None"
  by (induction s) auto

lemma lazyUntilSemicolon_no_semicolon: "CHR '';'' \<notin> set s \<Longrightarrow> lazyUntilSemicolon s = None"
  by (induction s) auto

lemma mimeMatch_no_semicolon: "CHR '';'' \<notin> set s \<Longrightarrow> mimeMatch s = None"
  by (induction s) (auto simp: lazyUntilSemicolon_no_semicolon)

text \<open>
  Claim C7. A string without a comma has no payload part, and the conversion throws
  \<open>Invalid data URL\<close>. A string with a comma whose header (the part before the first
  comma) gives the regular expression no match, or an empty capture group, throws
  \<open>Could not parse MIME type from data URL\<close>; a header without a colon or without a
  semicolon is such a header. In each case no file is returned, and \<open>atob\<close> is not
  consulted: the result is the same for every decoder.
\<close>

theorem dataURLtoFile_malformed:
  "(CHR '','' \<notin> set dataurl \<longrightarrow>
      dataURLtoFile decode dataurl filename = Inl (Error ''Invalid data URL''))
   \<and> (CHR '','' \<in> set dataurl
        \<and> mimeMatch (takeWhile (\<lambda>c. c \<noteq> CHR '','') dataurl) \<in> {None, Some []} \<longrightarrow>
      dataURLtoFile decode dataurl filename
        = Inl (Error ''Could not parse MIME type from data URL''))
   \<and> (CHR '','' \<in> set dataurl
        \<and> (CHR '':'' \<notin> set (takeWhile (\<lambda>c. c \<noteq> CHR '','') dataurl)
            \<or> CHR '';'' \<notin> set (takeWhile (\<lambda>c. c \<noteq> CHR '','') dataurl)) \<longrightarrow>
      dataURLtoFile decode dataurl filename
        = Inl (Error ''Could not parse MIME type from data URL''))"
proof -
  have parse: "dataURLtoFile decode dataurl filename
      = Inl (Error ''Could not parse MIME type from data URL'')"
    if comma: "CHR '','' \<in> set dataurl"
      and none: "mimeMatch (takeWhile (\<lambda>c. c \<noteq> CHR '','') dataurl) \<in> {None, Some []}"
  proof -
    have len: "\<not> length (split_comma dataurl) < 2"
      using split_comma_comma [OF comma] by simp
    from none have "mimeMatch (split_comma dataurl ! 0) = None
        \<or> mimeMatch (split_comma dataurl ! 0) = Some []"
      by (simp add: split_comma_head)
    then show ?thesis
      using len by (auto simp: dataURLtoFile_def Let_def)
  qed
  have invalid: "dataURLtoFile decode dataurl filename = Inl (Error ''Invalid data URL'')"
    if "CHR '','' \<notin> set dataurl"
    using that by (simp add: dataURLtoFile_def split_comma_no_comma)
  show ?thesis
    using invalid parse mimeMatch_no_colon mimeMatch_no_semicolon
    by (metis insertCI)
qed

theorem dataURLtoFile_malformed_witness:
  "dataURLtoFile (\<lambda>s. Inr s) ''hello'' ''f.png'' = Inl (Error ''Invalid data URL'')
   \<and> dataURLtoFile (\<lambda>s. Inr s) ''data:image/png,QUJD'' ''f.png''
       = Inl (Error ''Could not parse MIME type from data URL'')
   \<and> dataURLtoFile (\<lambda>s. Inr s) ''data:;base64,QUJD'' ''f.png''
       = Inl (Error ''Could not parse MIME type from data URL'')"
  using dataURLtoFile_malformed [of "''hello''" "\<lambda>s. Inr s" "''f.png''"]
    dataURLtoFile_malformed [of "''data:image/png,QUJD''" "\<lambda>s. Inr s" "''f.png''"]
    dataURLtoFile_malformed [of "''data:;base64,QUJD''" "\<lambda>s. Inr s" "''f.png''"]
  by (simp add: isLineTerminator_def)

section \<open>Rounding and scaling\<close>

lemma scaled_bound:
  fixes a x e :: real
  assumes "\<bar>x\<bar> \<le> 1 / 2 + e"
  shows "\<bar>a * x\<bar> \<le> \<bar>a\<bar> / 2 + \<bar>a\<bar> * e"
proof -
  have "\<bar>a\<bar> * \<bar>x\<bar> \<le> \<bar>a\<bar> * (1 / 2 + e)"
    by (rule mult_left_mono [OF assms]) simp
  then show ?thesis
    by (simp add: abs_mult algebra_simps)
qed

lemma three_bounds:
  fixes t :: real
  assumes "t = e - p - q" and "\<bar>e\<bar> \<le> 1 / 2 + e3" and "\<bar>p\<bar> \<le> u / 2 + e1" and "\<bar>q\<bar> \<le> v / 2 + e2"
  shows "\<bar>t\<bar> \<le> (1 + u + v) / 2 + e3 + e1 + e2"
proof -
  have "\<bar>t\<bar> \<le> \<bar>e\<bar> + \<bar>p\<bar> + \<bar>q\<bar>"
    unfolding assms(1) by linarith
  also have "\<dots> \<le> (1 / 2 + e3) + (u / 2 + e1) + (v / 2 + e2)"
    by (intro add_mono assms(2-4))
  also have "\<dots> = (1 + u + v) / 2 + e3 + e1 + e2"
    by (simp add: field_simps)
  finally show ?thesis .
qed

text \<open>
  Claim C8, as amended. For a displayed coordinate \<open>d\<close> and a positive ratio of natural to
  displayed size, both sizes and \<open>d\<close> below \<open>2^32\<close>, the handler computes an integer \<open>n\<close> within
  \<open>1 / 2 + doubleError (d * ratio)\<close> of \<open>d * ratio\<close>. Dividing \<open>n\<close> by the ratio recovers \<open>d\<close> to
  within \<open>(1 / 2 + doubleError (d * ratio)) / ratio\<close>; where \<open>d * ratio\<close> is farther than
  \<open>doubleError (d * ratio)\<close> from every number halfway between two integers, \<open>n\<close> is
  \<open>round (d * ratio)\<close> and \<open>d\<close> is recovered to within \<open>1 / (2 * ratio)\<close>. The map commutes with
  a linear combination \<open>a * d1 + b * d2\<close> of inputs up to the rounding errors: one half and
  the error of the doubles for the combination, and the same for each input, scaled by
  its coefficient.
\<close>

theorem hotspot_scaling:
  "0 < natural \<Longrightarrow> natural < 2 ^ 32 \<Longrightarrow> 0 < client \<Longrightarrow> client < 2 ^ 32 \<Longrightarrow>
   \<bar>d\<bar> \<le> 2 ^ 32 \<Longrightarrow> \<bar>d1\<bar> \<le> 2 ^ 32 \<Longrightarrow> \<bar>d2\<bar> \<le> 2 ^ 32 \<Longrightarrow> \<bar>a * d1 + b * d2\<bar> \<le> 2 ^ 32 \<Longrightarrow>
     (let ratio = real natural / real client in
      \<exists>n n1 n2 n3.
          scaleToNatural (Fin d) natural client = Fin (of_int n)
        \<and> scaleToNatural (Fin d1) natural client = Fin (of_int n1)
        \<and> scaleToNatural (Fin d2) natural client = Fin (of_int n2)
        \<and> scaleToNatural (Fin (a * d1 + b * d2)) natural client = Fin (of_int n3)
        \<and> \<bar>of_int n / ratio - d\<bar> \<le> (1 / 2 + doubleError (d * ratio)) / ratio
        \<and> (doubleError (d * ratio) < halfDistance (d * ratio)
             \<longrightarrow> n = round (d * ratio) \<and> \<bar>of_int n / ratio - d\<bar> \<le> 1 / (2 * ratio))
        \<and> \<bar>of_int n3 - (a * of_int n1 + b * of_int n2)\<bar>
            \<le> (1 + \<bar>a\<bar> + \<bar>b\<bar>) / 2 + doubleError ((a * d1 + b * d2) * ratio)
                + \<bar>a\<bar> * doubleError (d1 * ratio) + \<bar>b\<bar> * doubleError (d2 * ratio))"
proof -
  assume n: "0 < natural" "natural < 2 ^ 32" and c: "0 < client" "client < 2 ^ 32"
    and d: "\<bar>d\<bar> \<le> 2 ^ 32" and d1: "\<bar>d1\<bar> \<le> 2 ^ 32" and d2: "\<bar>d2\<bar> \<le> 2 ^ 32"
    and d3: "\<bar>a * d1 + b * d2\<bar> \<le> 2 ^ 32"
  define ratio where "ratio = real natural / real client"
  have pos: "0 < ratio"
    using n c by (simp add: ratio_def)
  have r: "x * real natural / real client = x * ratio" for x
    by (simp add: ratio_def)
  from scaleToNatural_axis [OF n(2) c d] obtain m where
    m: "scaleToNatural (Fin d) natural client = Fin (of_int m)"
      "\<bar>of_int m - d * ratio\<bar> \<le> 1 / 2 + doubleError (d * ratio)"
      "doubleError (d * ratio) < halfDistance (d * ratio) \<longrightarrow> m = round (d * ratio)"
    unfolding r by blast
  from scaleToNatural_axis [OF n(2) c d1] obtain m1 where
    m1: "scaleToNatural (Fin d1) natural client = Fin (of_int m1)"
      "\<bar>of_int m1 - d1 * ratio\<bar> \<le> 1 / 2 + doubleError (d1 * ratio)"
    unfolding r by blast
  from scaleToNatural_axis [OF n(2) c d2] obtain m2 where
    m2: "scaleToNatural (Fin d2) natural client = Fin (of_int m2)"
      "\<bar>of_int m2 - d2 * ratio\<bar> \<le> 1 / 2 + doubleError (d2 * ratio)"
    unfolding r by blast
  from scaleToNatural_axis [OF n(2) c d3] obtain m3 where
    m3: "scaleToNatural (Fin (a * d1 + b * d2)) natural client = Fin (of_int m3)"
      "\<bar>of_int m3 - (a * d1 + b * d2) * ratio\<bar> \<le> 1 / 2 + doubleError ((a * d1 + b * d2) * ratio)"
    unfolding r by blast
  have inverse_map: "\<bar>of_int k / ratio - d\<bar> = \<bar>of_int k - d * ratio\<bar> / ratio" for k :: int
    using pos by (simp add: field_simps abs_mult_pos [symmetric])
  have "\<bar>of_int m - d * ratio\<bar> / ratio \<le> (1 / 2 + doubleError (d * ratio)) / ratio"
    by (rule divide_right_mono [OF m(2)]) (use pos in simp)
  then have roundtrip: "\<bar>of_int m / ratio - d\<bar> \<le> (1 / 2 + doubleError (d * ratio)) / ratio"
    by (simp only: inverse_map)
  have exact: "m = round (d * ratio) \<and> \<bar>of_int m / ratio - d\<bar> \<le> 1 / (2 * ratio)"
    if far: "doubleError (d * ratio) < halfDistance (d * ratio)"
  proof -
    from m(3) far have e: "m = round (d * ratio)"
      by simp
    have "\<bar>of_int (round (d * ratio)) - d * ratio\<bar> / ratio \<le> (1 / 2) / ratio"
      by (rule divide_right_mono [OF of_int_round_abs_le]) (use pos in simp)
    then have "\<bar>of_int m / ratio - d\<bar> \<le> (1 / 2) / ratio"
      by (simp only: inverse_map e)
    with e show ?thesis
      by simp
  qed
  have e1: "\<bar>a * (of_int m1 - d1 * ratio)\<bar> \<le> \<bar>a\<bar> / 2 + \<bar>a\<bar> * doubleError (d1 * ratio)"
    by (rule scaled_bound [OF m1(2)])
  have e2: "\<bar>b * (of_int m2 - d2 * ratio)\<bar> \<le> \<bar>b\<bar> / 2 + \<bar>b\<bar> * doubleError (d2 * ratio)"
    by (rule scaled_bound [OF m2(2)])
  have "of_int m3 - (a * of_int m1 + b * of_int m2)
      = (of_int m3 - (a * d1 + b * d2) * ratio)
        - a * (of_int m1 - d1 * ratio) - b * (of_int m2 - d2 * ratio)"
    by (simp add: algebra_simps)
  then have lin: "\<bar>of_int m3 - (a * of_int m1 + b * of_int m2)\<bar>
      \<le> (1 + \<bar>a\<bar> + \<bar>b\<bar>) / 2 + doubleError ((a * d1 + b * d2) * ratio)
          + \<bar>a\<bar> * doubleError (d1 * ratio) + \<bar>b\<bar> * doubleError (d2 * ratio)"
    using m3(2) e1 e2 by (rule three_bounds)
  from m(1) m1(1) m2(1) m3(1) roundtrip exact lin
  have "\<exists>n n1 n2 n3.
          scaleToNatural (Fin d) natural client = Fin (of_int n)
        \<and> scaleToNatural (Fin d1) natural client = Fin (of_int n1)
        \<and> scaleToNatural (Fin d2) natural client = Fin (of_int n2)
        \<and> scaleToNatural (Fin (a * d1 + b * d2)) natural client = Fin (of_int n3)
        \<and> \<bar>of_int n / ratio - d\<bar> \<le> (1 / 2 + doubleError (d * ratio)) / ratio
        \<and> (doubleError (d * ratio) < halfDistance (d * ratio)
             \<longrightarrow> n = round (d * ratio) \<and> \<bar>of_int n / ratio - d\<bar> \<le> 1 / (2 * ratio))
        \<and> \<bar>of_int n3 - (a * of_int n1 + b * of_int n2)\<bar>
            \<le> (1 + \<bar>a\<bar> + \<bar>b\<bar>) / 2 + doubleError ((a * d1 + b * d2) * ratio)
                + \<bar>a\<bar> * doubleError (d1 * ratio) + \<bar>b\<bar> * doubleError (d2 * ratio)"
    by blast
  then show ?thesis
    unfolding Let_def ratio_def .
qed

lemma doubleError_12: "doubleError (8 * (3 / 2)) < halfDistance (8 * (3 / 2))"
  by (simp add: doubleError_def halfDistance_def power_int_def power_divide)

theorem hotspot_scaling_witness:
  "\<exists>n n1 n2 n3.
      scaleToNatural (Fin 8) 3 2 = Fin (of_int n)
    \<and> scaleToNatural (Fin 7) 3 2 = Fin (of_int n1)
    \<and> scaleToNatural (Fin 5) 3 2 = Fin (of_int n2)
    \<and> scaleToNatural (Fin (2 * 7 + (- 1) * 5)) 3 2 = Fin (of_int n3)
    \<and> n = round (8 * (3 / 2) :: real)
    \<and> \<bar>of_int n / (3 / 2) - 8\<bar> \<le> (1 / (2 * (3 / 2)) :: real)
    \<and> \<bar>of_int n3 - (2 * of_int n1 + (- 1) * of_int n2)\<bar>
        \<le> (1 + \<bar>2\<bar> + \<bar>- 1\<bar>) / 2 + doubleError ((2 * 7 + (- 1) * 5) * (3 / 2))
            + \<bar>2\<bar> * doubleError (7 * (3 / 2)) + \<bar>- 1\<bar> * doubleError (5 * (3 / 2))"
proof -
  have n: "0 < (3::nat)" "(3::nat) < 2 ^ 32" and c: "0 < (2::nat)" "(2::nat) < 2 ^ 32"
    by simp_all
  have d: "\<bar>8\<bar> \<le> (2 ^ 32 :: real)" "\<bar>7\<bar> \<le> (2 ^ 32 :: real)" "\<bar>5\<bar> \<le> (2 ^ 32 :: real)"
    "\<bar>2 * 7 + (- 1) * 5\<bar> \<le> (2 ^ 32 :: real)"
    by simp_all
  from hotspot_scaling [OF n c d] doubleError_12
  show ?thesis
    unfolding Let_def by simp blast
qed

text \<open>
  The claim as stated fails. At the ratio \<open>1300 / 600\<close> and the double
  \<open>d = 8.538461538461538\<close> the exact product lies just below \<open>18.5\<close>; the product of the
  doubles rounds to \<open>18.5\<close>, and the handler gives 19. Mapped back, 19 misses \<open>d\<close> by more
  than \<open>1 / (2 * ratio)\<close>.
\<close>

theorem exact_scaling_counterexample:
  "scaleToNatural (Fin (4806726525366587 / 562949953421312)) 1300 600 = Fin 19
   \<and> \<not> \<bar>19 / (real 1300 / real 600) - 4806726525366587 / 562949953421312\<bar>
         \<le> 1 / (2 * (real 1300 / real 600))"
proof -
  have "scaleToNatural (Fin (4806726525366587 / 562949953421312)) 1300 600 = Fin 19"
    by (simp add: scaleToNatural_def quotient_1300_600 double_eval round_def)
  then show ?thesis
    by simp
qed

section \<open>Reset keeps the history\<close>

lemma handleRedo_advances:
  "historyIndex t = int k \<Longrightarrow> Suc k < length (history t) \<Longrightarrow>
     historyIndex (handleRedo t) = int (Suc k) \<and> history (handleRedo t) = history t"
  by (simp add: handleRedo_def canRedo_def)

lemma redo_iterate:
  "historyIndex s = 0 \<Longrightarrow> k < length (history s) \<Longrightarrow>
     historyIndex ((handleRedo ^^ k) s) = int k \<and> history ((handleRedo ^^ k) s) = history s"
proof (induction k)
  case 0
  then show ?case by simp
next
  case (Suc k)
  then have ih: "historyIndex ((handleRedo ^^ k) s) = int k"
      "history ((handleRedo ^^ k) s) = history s"
    by simp_all
  have "Suc k < length (history ((handleRedo ^^ k) s))"
    using Suc.prems ih by simp
  from handleRedo_advances [OF ih(1) this] ih(2) show ?case
    by simp
qed

text \<open>
  Claim C9. On a history that is not empty, reset moves the index to \<open>0\<close> and leaves the
  history as it was. Every recorded image can then be reached again: \<open>k\<close> redos after the
  reset put the index at \<open>k\<close>, with the \<open>k\<close>-th image current, for every \<open>k\<close> below the length.
\<close>

theorem reset_keeps_history:
  assumes "history s \<noteq> []"
  shows "historyIndex (handleReset s) = 0
    \<and> history (handleReset s) = history s
    \<and> (\<forall>k < length (history s).
          historyIndex ((handleRedo ^^ k) (handleReset s)) = int k
          \<and> history ((handleRedo ^^ k) (handleReset s)) = history s
          \<and> currentImage ((handleRedo ^^ k) (handleReset s)) = Some (history s ! k))"
proof -
  have r: "historyIndex (handleReset s) = 0" "history (handleReset s) = history s"
    using assms by (simp_all add: handleReset_def)
  have "\<And>k. k < length (history s) \<Longrightarrow>
      historyIndex ((handleRedo ^^ k) (handleReset s)) = int k
      \<and> history ((handleRedo ^^ k) (handleReset s)) = history s"
    using redo_iterate [of "handleReset s"] r by simp
  then show ?thesis
    using r by (simp add: currentImage_def elementAt_def)
qed

theorem reset_keeps_history_witness:
  "historyIndex (handleReset (stateAt [fileA, fileB, fileC] 1)) = 0
   \<and> history (handleReset (stateAt [fileA, fileB, fileC] 1)) = [fileA, fileB, fileC]
   \<and> historyIndex ((handleRedo ^^ 2) (handleReset (stateAt [fileA, fileB, fileC] 1))) = 2
   \<and> currentImage ((handleRedo ^^ 2) (handleReset (stateAt [fileA, fileB, fileC] 1))) = Some fileC"
proof -
  have ne: "history (stateAt [fileA, fileB, fileC] 1) \<noteq> []"
    by (simp add: stateAt_def)
  have two: "(2::nat) < length (history (stateAt [fileA, fileB, fileC] 1))"
    by (simp add: stateAt_def)
  from reset_keeps_history [OF ne] two show ?thesis
    by (simp add: stateAt_def)
qed

section \<open>Upload and memory replace the history\<close>

text \<open>
  Claim C10. After an upload the history is the uploaded file alone, at index \<open>0\<close>,
  whatever it was before. The same holds after a memory was created with success, that
  is, when the service answers with a data URL that converts to a file: whatever the
  state in which the answer arrives, the history becomes the new image alone. So it is
  when the call of a memory action awaited in the state settles, and when the handler
  starts the action with the held key and the service then answers.
\<close>

theorem upload_and_memory_replace_history:
  "history (handleImageUpload file s) = [file]
   \<and> historyIndex (handleImageUpload file s) = 0
   \<and> (dataURLtoFile (atob env) memoryImageUrl (''memory-'' @ showNat (dateNow env 0) @ ''.png'')
         = Inr newImageFile
       \<longrightarrow> history (continueAction env (CreateMemoryAction faceDataUrl p) (Inr memoryImageUrl) s)
             = [newImageFile]
           \<and> historyIndex (continueAction env (CreateMemoryAction faceDataUrl p)
               (Inr memoryImageUrl) s) = 0
           \<and> (\<forall>call n. n < length (inFlight s)
                 \<and> inFlight s ! n = (call, CreateMemoryAction faceDataUrl p)
                 \<and> service env call = Inr memoryImageUrl
                 \<longrightarrow> history (serviceSettles env n s) = [newImageFile]
                     \<and> historyIndex (serviceSettles env n s) = 0)
           \<and> (\<forall>start key faceFile.
                 apiKey s = Some key \<and> key \<noteq> []
                 \<and> dataURLtoFile (atob start) faceDataUrl
                      (''face-'' @ showNat (dateNow start 0) @ ''.png'') = Inr faceFile
                 \<and> service env (generateMemory key faceFile p) = Inr memoryImageUrl
                 \<longrightarrow> history (serviceSettles env (length (inFlight s))
                        (handleCreateMemory start faceDataUrl p s)) = [newImageFile]
                     \<and> historyIndex (serviceSettles env (length (inFlight s))
                        (handleCreateMemory start faceDataUrl p s)) = 0))"
  by (simp add: handleImageUpload_def handleCreateMemory_def withApiKey_def
      serviceSettles_def continueAction_def await_def Let_def nth_append)

theorem upload_and_memory_replace_history_witness:
  "history (handleImageUpload fileD (stateAt [fileA, fileB, fileC] 1)) = [fileD]
   \<and> historyIndex (handleImageUpload fileD (stateAt [fileA, fileB, fileC] 1)) = 0
   \<and> history (continueAction browserEnv
        (CreateMemoryAction ''data:image/jpeg;base64,RkFDRQ=='' ''a walk'')
        (Inr ''data:image/png;base64,QUJD'') (stateAt [fileA, fileB, fileC] 1))
     = [\<lparr>fileBits = [81, 85, 74, 68], fileName = ''memory-7.png'', fileType = ''image/png''\<rparr>]
   \<and> historyIndex (continueAction browserEnv
        (CreateMemoryAction ''data:image/jpeg;base64,RkFDRQ=='' ''a walk'')
        (Inr ''data:image/png;base64,QUJD'') (stateAt [fileA, fileB, fileC] 1)) = 0
   \<and> history (serviceSettles browserEnv 0
        (handleCreateMemory browserEnv ''data:image/jpeg;base64,RkFDRQ=='' ''a walk''
           ((stateAt [fileA, fileB, fileC] 1)\<lparr>apiKey := Some ''k1''\<rparr>)))
     = [\<lparr>fileBits = [81, 85, 74, 68], fileName = ''memory-7.png'', fileType = ''image/png''\<rparr>]
   \<and> history (serviceSettles browserEnv 0
        (handleUndo
           (handleCreateMemory browserEnv ''data:image/jpeg;base64,RkFDRQ=='' ''a walk''
              ((stateAt [fileA, fileB, fileC] 1)\<lparr>apiKey := Some ''k1''\<rparr>))))
     = [\<lparr>fileBits = [81, 85, 74, 68], fileName = ''memory-7.png'', fileType = ''image/png''\<rparr>]"
proof -
  define faceFile where "faceFile = \<lparr>fileBits = [82, 107, 70, 68, 82, 81, 61, 61],
    fileName = ''face-7.png'', fileType = ''image/jpeg''\<rparr>"
  define memoryFile where "memoryFile = \<lparr>fileBits = [81, 85, 74, 68],
    fileName = ''memory-7.png'', fileType = ''image/png''\<rparr>"
  define keyed where "keyed = (stateAt [fileA, fileB, fileC] 1)\<lparr>apiKey := Some ''k1''\<rparr>"
  define pending where "pending = handleUndo
    (handleCreateMemory browserEnv ''data:image/jpeg;base64,RkFDRQ=='' ''a walk'' keyed)"
  have face: "dataURLtoFile (atob browserEnv) ''data:image/jpeg;base64,RkFDRQ==''
      (''face-'' @ showNat (dateNow browserEnv 0) @ ''.png'') = Inr faceFile"
    by (simp add: dataURLtoFile_def browserEnv_def showNat.simps isLineTerminator_def
        faceFile_def)
  have svc: "service browserEnv call = Inr ''data:image/png;base64,QUJD''" for call
    by (simp add: browserEnv_def)
  have mem: "dataURLtoFile (atob browserEnv) ''data:image/png;base64,QUJD''
      (''memory-'' @ showNat (dateNow browserEnv 0) @ ''.png'') = Inr memoryFile"
    by (simp add: dataURLtoFile_def browserEnv_def showNat.simps isLineTerminator_def
        memoryFile_def)
  have key: "apiKey keyed = Some ''k1''" "''k1'' \<noteq> []" "inFlight keyed = []"
    by (simp_all add: keyed_def stateAt_def initialState_def)
  have fl: "inFlight pending
      = [(generateMemory ''k1'' faceFile ''a walk'',
          CreateMemoryAction ''data:image/jpeg;base64,RkFDRQ=='' ''a walk'')]"
    using face key
    by (simp add: pending_def handleCreateMemory_def withApiKey_def await_def handleUndo_def
        Let_def)
  note at_start = upload_and_memory_replace_history
    [of fileD "stateAt [fileA, fileB, fileC] 1" browserEnv "''data:image/png;base64,QUJD''"
        memoryFile "''data:image/jpeg;base64,RkFDRQ==''" "''a walk''"]
  note at_keyed = upload_and_memory_replace_history
    [of fileD keyed browserEnv "''data:image/png;base64,QUJD''"
        memoryFile "''data:image/jpeg;base64,RkFDRQ==''" "''a walk''"]
  note at_pending = upload_and_memory_replace_history
    [of fileD pending browserEnv "''data:image/png;base64,QUJD''"
        memoryFile "''data:image/jpeg;base64,RkFDRQ==''" "''a walk''"]
  from at_start mem
  have a: "history (handleImageUpload fileD (stateAt [fileA, fileB, fileC] 1)) = [fileD]"
      "historyIndex (handleImageUpload fileD (stateAt [fileA, fileB, fileC] 1)) = 0"
      "history (continueAction browserEnv
        (CreateMemoryAction ''data:image/jpeg;base64,RkFDRQ=='' ''a walk'')
        (Inr ''data:image/png;base64,QUJD'') (stateAt [fileA, fileB, fileC] 1)) = [memoryFile]"
      "historyIndex (continueAction browserEnv
        (CreateMemoryAction ''data:image/jpeg;base64,RkFDRQ=='' ''a walk'')
        (Inr ''data:image/png;base64,QUJD'') (stateAt [fileA, fileB, fileC] 1)) = 0"
    by blast+
  from at_keyed mem have "\<forall>start key faceFile.
      apiKey keyed = Some key \<and> key \<noteq> []
      \<and> dataURLtoFile (atob start) ''data:image/jpeg;base64,RkFDRQ==''
           (''face-'' @ showNat (dateNow start 0) @ ''.png'') = Inr faceFile
      \<and> service browserEnv (generateMemory key faceFile ''a walk'')
           = Inr ''data:image/png;base64,QUJD''
      \<longrightarrow> history (serviceSettles browserEnv (length (inFlight keyed))
             (handleCreateMemory start ''data:image/jpeg;base64,RkFDRQ=='' ''a walk'' keyed))
           = [memoryFile]
          \<and> historyIndex (serviceSettles browserEnv (length (inFlight keyed))
             (handleCreateMemory start ''data:image/jpeg;base64,RkFDRQ=='' ''a walk'' keyed)) = 0"
    by blast
  from spec [OF spec [OF spec [OF this, of browserEnv], of "''k1''"], of faceFile] face svc key
  have b: "history (serviceSettles browserEnv 0
      (handleCreateMemory browserEnv ''data:image/jpeg;base64,RkFDRQ=='' ''a walk'' keyed))
    = [memoryFile]"
    by simp
  from at_pending mem have "\<forall>call n. n < length (inFlight pending)
      \<and> inFlight pending ! n = (call, CreateMemoryAction ''data:image/jpeg;base64,RkFDRQ=='' ''a walk'')
      \<and> service browserEnv call = Inr ''data:image/png;base64,QUJD''
      \<longrightarrow> history (serviceSettles browserEnv n pending) = [memoryFile]
          \<and> historyIndex (serviceSettles browserEnv n pending) = 0"
    by blast
  from spec [OF spec [OF this, of "generateMemory ''k1'' faceFile ''a walk''"], of 0] fl svc
  have c: "history (serviceSettles browserEnv 0 pending) = [memoryFile]"
    by simp
  from a b c show ?thesis
    unfolding memoryFile_def keyed_def pending_def by blast
qed

end
